theory Spec2Isabelle
  imports Complex_Main "HOL-Library.Multiset"
begin

section \<open>Data model\<close>

text \<open>
  The repository holds two versions of the same React application: \<open>src/index.tsx\<close> and a
  second source file (\<open>part_000\<close>). Their quiz logic is the same text except for one block
  of \<open>generateQuestion\<close> (the "no multiplication by 1" rule, which only \<open>index.tsx\<close> has),
  so the functions below are written once and take the source file as a parameter where
  the two differ.
\<close>

datatype SourceFile = Index_tsx | Part_000

datatype Difficulty = Easy | Moderate | Hard

text \<open>
  The JavaScript numbers that reach the quiz logic are integers far below \<open>2 ^ 53\<close>
  (scores up to about 1000, operands up to a few dozen), so they are \<open>int\<close>. The one
  other value is the \<open>NaN\<close> that \<open>parseInt\<close> returns for text without a leading integer.
\<close>

datatype jsnum = Num int | NaN

record Question =
  num1 :: int
  num2 :: int
  answer :: int
  options :: "int list"

text \<open>
  The props and the \<open>useState\<close> cells of the \<open>GameScreen\<close> component. \<open>feedback\<close> is the
  object \<open>{ incorrectSelection?: number }\<close>: \<open>None\<close> is \<open>{}\<close>. A value of this record is
  also what a callback closes over: the values of one render.
\<close>

record GameScreen =
  difficulty :: Difficulty
  robuxScore :: int
  currentQuestion :: "Question option"
  correctStreak :: int
  wrongStreak :: int
  correctAnswersCount :: int
  feedback :: "jsnum option"
  isAnswered :: bool
  difficultyLevel :: int
  showIntroMessage :: bool
  typedAnswer :: string
  lastQuestion :: "(int \<times> int) option"

section \<open>Scoring\<close>

text \<open>
  \<^verbatim>\<open>
  const getPenalty = (score: number): number => {
      if (score >= 930) { return 8; }
      if (score >= 800) { return 5; }
      if (score >= 700) { return 4; }
      return 2; // Default penalty
  };
  \<close>
\<close>

definition getPenalty :: "int \<Rightarrow> int" where
  "getPenalty score =
     (if score \<ge> 930 then 8
      else if score \<ge> 800 then 5
      else if score \<ge> 700 then 4
      else 2)"

section \<open>Random draws\<close>

text \<open>
  \<open>Math.random()\<close> returns a number \<open>r\<close> with \<open>0 \<le> r < 1\<close>. The draws a call makes are
  read, in program order, from a finite tape of such numbers; a function that needs a
  draw when the tape is empty returns \<open>None\<close>, which stands for "the loop was still running
  after that many draws". Both loops of \<open>generateQuestion\<close> are rejection loops that a
  tape can keep running for ever, so a result is \<open>Some\<close> only for a tape on which they end.

  The products \<open>r * n\<close> are taken exactly, as real numbers, where the code multiplies
  two doubles: its product is the exact one rounded to the nearest double, to the even
  one of two that are as near. That arithmetic is \<open>roundToDouble\<close> below, and
  \<open>floorRandomDouble\<close> is \<open>Math.floor(Math.random() * n)\<close> in it. For a double \<open>r\<close> just
  below a boundary \<open>k / n\<close> the rounded product can be \<open>k\<close>, and then the two floors differ
  by one (lemma \<open>floorRandom_differs\<close>). Both lie in \<open>0 .. n - 1\<close>, and what the code
  computes on a double \<open>r\<close> is what \<open>floorRandom\<close> computes on some \<open>r'\<close> of the unit interval
  (lemma \<open>floorRandomDouble_on_tape\<close>, and \<open>ceilingDouble_on_tape\<close> for the one
  \<open>Math.ceil\<close>). Every draw of a tape is used once, so an execution of the code is the
  model's on some tape, and what is proved of all tapes holds of the code. Nothing below
  is stated about the boundaries between two results of a draw.
\<close>

definition unitInterval :: "real \<Rightarrow> bool" where
  "unitInterval r = (0 \<le> r \<and> r < 1)"

text \<open>\<open>Math.floor(Math.random() * n)\<close>\<close>

definition floorRandom :: "real \<Rightarrow> int \<Rightarrow> int" where
  "floorRandom r n = \<lfloor>r * of_int n\<rfloor>"

text \<open>
  Binary64: a double has 53 significant bits, and the spacing of the doubles is never
  below \<open>2 ^ -1074\<close>. \<open>ulp x\<close> is the spacing of the doubles at \<open>x\<close>, and \<open>roundToDouble x\<close> the
  double nearest to \<open>x\<close>, the one with the even significand when \<open>x\<close> is half way between
  two. (Overflow is left out: the products of this program are below \<open>2 ^ 53\<close>.)
\<close>

definition ulp :: "real \<Rightarrow> real" where
  "ulp x = 2 powr of_int (max (\<lfloor>log 2 \<bar>x\<bar>\<rfloor> - 52) (- 1074))"

definition roundToDouble :: "real \<Rightarrow> real" where
  "roundToDouble x =
     (let q = x / ulp x; f = \<lfloor>q\<rfloor>
      in of_int (if q - of_int f < 1 / 2 \<or> (q - of_int f = 1 / 2 \<and> even f) then f else f + 1)
         * ulp x)"

text \<open>A real number is a double when rounding leaves it as it is.\<close>

definition isDouble :: "real \<Rightarrow> bool" where
  "isDouble x = (roundToDouble x = x)"

text \<open>
  \<open>Math.floor(Math.random() * n)\<close> as the code computes it, for a double \<open>r\<close> and an integer
  \<open>n\<close> (which is a double itself, being far below \<open>2 ^ 53\<close>).
\<close>

definition floorRandomDouble :: "real \<Rightarrow> int \<Rightarrow> int" where
  "floorRandomDouble r n = \<lfloor>roundToDouble (r * of_int n)\<rfloor>"

text \<open>
  \<open>factors[Math.floor(Math.random() * factors.length)]\<close>; the index is in range for every
  \<open>r\<close> of the unit interval.
\<close>

definition pickFrom :: "int list \<Rightarrow> real \<Rightarrow> int" where
  "pickFrom factors r = factors ! nat (floorRandom r (int (length factors)))"

section \<open>Question generation\<close>

text \<open>
  The rule cascade in the body of the \<open>do ... while\<close> loop (index.tsx lines 372-421; the
  same text is in the second source file):
  \<^verbatim>\<open>
      if (robuxScore >= 800) {
        const highFactors = [6, 7, 8, 9];
        num1 = highFactors[Math.floor(Math.random() * highFactors.length)];
        num2 = Math.floor(Math.random() * 7) + 6;
        if (Math.random() < 0.5) { [num1, num2] = [num2, num1]; }
      }
      else if (difficulty === Difficulty.Hard) {
        const factors = [6, 7, 8, 9];
        num1 = factors[Math.floor(Math.random() * factors.length)];
        num2 = factors[Math.floor(Math.random() * factors.length)];
      }
      else if (difficulty === Difficulty.Moderate) {
        const factors = [4, 5, 6, 7];
        num1 = factors[Math.floor(Math.random() * factors.length)];
        num2 = Math.floor(Math.random() * 10) + 1;
        if (Math.random() < 0.5) { [num1, num2] = [num2, num1]; }
      }
      else if (difficulty === Difficulty.Easy && correctAnswersCount < 30) {
          const factor1 = Math.random() < 0.5 ? 2 : 3;
          const factor2 = Math.floor(Math.random() * 10) + 1;
          if (Math.random() > 0.5) { num1 = factor1; num2 = factor2; }
          else { num1 = factor2; num2 = factor1; }
      } else {
          let baseMaxNum = difficulty === Difficulty.Easy ? 4
                         : (difficulty === Difficulty.Moderate ? 7 : 10);
          const streakBonus = Math.floor(correctStreak / 3);
          const robuxBonus = robuxScore >= 500 ? 2 : 0;
          const effectiveLevel = difficultyLevel + streakBonus + robuxBonus;
          const maxNum1 = baseMaxNum + effectiveLevel;
          const maxNum2 = baseMaxNum + Math.max(0, effectiveLevel - 2);
          num1 = Math.floor(Math.random() * maxNum1) + 1;
          num2 = Math.floor(Math.random() * maxNum2) + 1;
          if (num1 === 1 && num2 === 1) { num2 = Math.floor(Math.random() * 9) + 2; }
      }
  \<close>
  Each branch is a function of the tape: it returns the operands it draws and the rest
  of the tape. \<open>c\<close> holds the values that the callback closes over.
\<close>

definition scoreOverrideRule :: "real list \<Rightarrow> ((int \<times> int) \<times> real list) option" where
  "scoreOverrideRule rs =
     (case rs of
        r1 # r2 # r3 # rs' \<Rightarrow>
          (let n1 = pickFrom [6, 7, 8, 9] r1;
               n2 = floorRandom r2 7 + 6
           in Some (if r3 < 1 / 2 then (n2, n1) else (n1, n2), rs'))
      | _ \<Rightarrow> None)"

definition hardRule :: "real list \<Rightarrow> ((int \<times> int) \<times> real list) option" where
  "hardRule rs =
     (case rs of
        r1 # r2 # rs' \<Rightarrow> Some ((pickFrom [6, 7, 8, 9] r1, pickFrom [6, 7, 8, 9] r2), rs')
      | _ \<Rightarrow> None)"

definition moderateRule :: "real list \<Rightarrow> ((int \<times> int) \<times> real list) option" where
  "moderateRule rs =
     (case rs of
        r1 # r2 # r3 # rs' \<Rightarrow>
          (let n1 = pickFrom [4, 5, 6, 7] r1;
               n2 = floorRandom r2 10 + 1
           in Some (if r3 < 1 / 2 then (n2, n1) else (n1, n2), rs'))
      | _ \<Rightarrow> None)"

definition easyRule :: "real list \<Rightarrow> ((int \<times> int) \<times> real list) option" where
  "easyRule rs =
     (case rs of
        r1 # r2 # r3 # rs' \<Rightarrow>
          (let factor1 = (if r1 < 1 / 2 then 2 else 3);
               factor2 = floorRandom r2 10 + 1
           in Some (if r3 > 1 / 2 then (factor1, factor2) else (factor2, factor1), rs'))
      | _ \<Rightarrow> None)"

text \<open>The last branch; \<open>Math.floor(correctStreak / 3)\<close> is \<open>div\<close>, which rounds down.\<close>

definition fallbackRule :: "GameScreen \<Rightarrow> real list \<Rightarrow> ((int \<times> int) \<times> real list) option" where
  "fallbackRule c rs =
     (let baseMaxNum = (if difficulty c = Easy then 4 else if difficulty c = Moderate then 7 else 10);
          streakBonus = correctStreak c div 3;
          robuxBonus = (if robuxScore c \<ge> 500 then 2 else 0);
          effectiveLevel = difficultyLevel c + streakBonus + robuxBonus;
          maxNum1 = baseMaxNum + effectiveLevel;
          maxNum2 = baseMaxNum + max 0 (effectiveLevel - 2)
      in case rs of
           r1 # r2 # rs' \<Rightarrow>
             (let n1 = floorRandom r1 maxNum1 + 1;
                  n2 = floorRandom r2 maxNum2 + 1
              in if n1 = 1 \<and> n2 = 1
                 then (case rs' of
                         r3 # rs'' \<Rightarrow> Some ((n1, floorRandom r3 9 + 2), rs'')
                       | [] \<Rightarrow> None)
                 else Some ((n1, n2), rs'))
         | _ \<Rightarrow> None)"

text \<open>The cascade itself: the first branch whose condition holds.\<close>

definition drawOperands :: "GameScreen \<Rightarrow> real list \<Rightarrow> ((int \<times> int) \<times> real list) option" where
  "drawOperands c rs =
     (if robuxScore c \<ge> 800 then scoreOverrideRule rs
      else if difficulty c = Hard then hardRule rs
      else if difficulty c = Moderate then moderateRule rs
      else if difficulty c = Easy \<and> correctAnswersCount c < 30 then easyRule rs
      else fallbackRule c rs)"

text \<open>
  The block that follows the cascade in \<open>index.tsx\<close> (lines 423-427). The second source
  file has no such block: there the test for a repetition follows the cascade at once.
  \<^verbatim>\<open>
      // NEW RULE: No multiplication by 1 if score >= 100
      if (robuxScore >= 100) {
        if (num1 === 1) num1 = Math.floor(Math.random() * 3) + 2; // Replace with 2, 3, or 4
        if (num2 === 1) num2 = Math.floor(Math.random() * 3) + 2; // Replace with 2, 3, or 4
      }
  \<close>
\<close>

definition noTimesOne :: "GameScreen \<Rightarrow> int \<Rightarrow> int \<Rightarrow> real list \<Rightarrow> ((int \<times> int) \<times> real list) option" where
  "noTimesOne c n1 n2 rs =
     (if robuxScore c \<ge> 100 then
        (case (if n1 = 1
               then (case rs of r # rs' \<Rightarrow> Some (floorRandom r 3 + 2, rs') | [] \<Rightarrow> None)
               else Some (n1, rs)) of
           None \<Rightarrow> None
         | Some (n1', rs1) \<Rightarrow>
             (if n2 = 1
              then (case rs1 of r # rs' \<Rightarrow> Some ((n1', floorRandom r 3 + 2), rs') | [] \<Rightarrow> None)
              else Some ((n1', n2), rs1)))
      else Some ((n1, n2), rs))"

text \<open>
  The test that ends the \<open>do ... while (isRepeated)\<close> loop; a \<open>null\<close> \<open>lastQuestion\<close> makes
  it false.
  \<^verbatim>\<open>
      isRepeated = lastQuestion && ((num1 === lastQuestion.num1 && num2 === lastQuestion.num2)
                                 || (num1 === lastQuestion.num2 && num2 === lastQuestion.num1));
  \<close>
\<close>

definition isRepeated :: "GameScreen \<Rightarrow> int \<Rightarrow> int \<Rightarrow> bool" where
  "isRepeated c n1 n2 =
     (case lastQuestion c of
        None \<Rightarrow> False
      | Some (l1, l2) \<Rightarrow> (n1 = l1 \<and> n2 = l2) \<or> (n1 = l2 \<and> n2 = l1))"

text \<open>The body of the \<open>do ... while\<close> loop, up to the test.\<close>

definition loopBody :: "SourceFile \<Rightarrow> GameScreen \<Rightarrow> real list \<Rightarrow> ((int \<times> int) \<times> real list) option" where
  "loopBody src c rs =
     (case drawOperands c rs of
        None \<Rightarrow> None
      | Some ((n1, n2), rs1) \<Rightarrow>
          (if src = Index_tsx then noTimesOne c n1 n2 rs1 else Some ((n1, n2), rs1)))"

lemma fallbackRule_consumes:
  "fallbackRule c rs = Some (p, rs') \<Longrightarrow> length rs' < length rs"
  by (auto simp: fallbackRule_def Let_def split: list.splits if_splits)

lemma scoreOverrideRule_consumes:
  "scoreOverrideRule rs = Some (p, rs') \<Longrightarrow> length rs' < length rs"
  by (auto simp: scoreOverrideRule_def Let_def split: list.splits)

lemma hardRule_consumes:
  "hardRule rs = Some (p, rs') \<Longrightarrow> length rs' < length rs"
  by (auto simp: hardRule_def split: list.splits)

lemma moderateRule_consumes:
  "moderateRule rs = Some (p, rs') \<Longrightarrow> length rs' < length rs"
  by (auto simp: moderateRule_def Let_def split: list.splits)

lemma easyRule_consumes:
  "easyRule rs = Some (p, rs') \<Longrightarrow> length rs' < length rs"
  by (auto simp: easyRule_def Let_def split: list.splits)

lemma drawOperands_consumes:
  "drawOperands c rs = Some (p, rs') \<Longrightarrow> length rs' < length rs"
  unfolding drawOperands_def
  by (auto split: if_splits
           dest: scoreOverrideRule_consumes hardRule_consumes moderateRule_consumes
                 easyRule_consumes fallbackRule_consumes)

lemma noTimesOne_consumes:
  "noTimesOne c n1 n2 rs = Some (p', rs') \<Longrightarrow> length rs' \<le> length rs"
  by (auto simp: noTimesOne_def split: list.splits if_splits option.splits)

lemma loopBody_consumes:
  assumes "loopBody src c rs = Some (p, rs')"
  shows "length rs' < length rs"
proof (cases "drawOperands c rs")
  case None
  with assms show ?thesis by (simp add: loopBody_def)
next
  case (Some a)
  obtain n1 n2 rs1 where a: "a = ((n1, n2), rs1)" by (cases a) auto
  from Some a have 1: "length rs1 < length rs" by (simp add: drawOperands_consumes)
  show ?thesis
  proof (cases "src = Index_tsx")
    case True
    with Some a assms have "noTimesOne c n1 n2 rs1 = Some (p, rs')" by (simp add: loopBody_def)
    from noTimesOne_consumes [OF this] 1 show ?thesis by simp
  next
    case False
    with Some a 1 assms show ?thesis by (simp add: loopBody_def)
  qed
qed

function pickOperands :: "SourceFile \<Rightarrow> GameScreen \<Rightarrow> real list \<Rightarrow> ((int \<times> int) \<times> real list) option" where
  "pickOperands src c rs =
     (case loopBody src c rs of
        None \<Rightarrow> None
      | Some ((n1, n2), rs') \<Rightarrow>
          (if isRepeated c n1 n2 then pickOperands src c rs' else Some ((n1, n2), rs')))"
  by pat_completeness auto
termination
  by (relation "measure (\<lambda>(src, c, rs). length rs)") (auto dest: loopBody_consumes)

declare pickOperands.simps [simp del]

text \<open>
  \<open>options.add(x)\<close> on the \<open>Set\<close> of options, kept as the list of its members in
  insertion order (the order \<open>Array.from\<close> reads them in); \<open>options.size\<close> is its length.
\<close>

definition setAdd :: "int list \<Rightarrow> int \<Rightarrow> int list" where
  "setAdd xs x = (if x \<in> set xs then xs else xs @ [x])"

text \<open>
  The options (index.tsx lines 434-446):
  \<^verbatim>\<open>
    const answer = num1 * num2;
    const options: Set<number> = new Set([answer]);
    while (options.size < 4) {
      const wrongAnswerOffset = Math.floor(Math.random() * 10) - 5;
      const wrongAnswerMultiplier = Math.random() > 0.5 ? num1 : num2;
      let wrongAnswer = answer + wrongAnswerOffset * wrongAnswerMultiplier;
      if(wrongAnswer === answer || wrongAnswer <= 0){
        wrongAnswer = answer + (options.size * (Math.random() > 0.5 ? 1 : -1)
                                             * (Math.ceil(Math.random()*3) + 1));
        if (wrongAnswer <= 0 || wrongAnswer === answer) wrongAnswer = answer + options.size + 1;
      }
      options.add(wrongAnswer);
    }
    const shuffledOptions = Array.from(options).sort(() => Math.random() - 0.5);
  \<close>
  \<open>wrongAnswerDraw\<close> is the wrong answer that one pass of the loop body computes; \<open>sz\<close>
  is \<open>options.size\<close>.
\<close>

definition wrongAnswerDraw :: "int \<Rightarrow> int \<Rightarrow> int \<Rightarrow> int \<Rightarrow> real list \<Rightarrow> (int \<times> real list) option" where
  "wrongAnswerDraw n1 n2 ans sz rs =
     (case rs of
        r1 # r2 # rs' \<Rightarrow>
          (let wrongAnswerOffset = floorRandom r1 10 - 5;
               wrongAnswerMultiplier = (if r2 > 1 / 2 then n1 else n2);
               wrongAnswer = ans + wrongAnswerOffset * wrongAnswerMultiplier
           in if wrongAnswer = ans \<or> wrongAnswer \<le> 0
              then (case rs' of
                      r3 # r4 # rs'' \<Rightarrow>
                        (let wrongAnswer' = ans + (sz * (if r3 > 1 / 2 then 1 else - 1) * (\<lceil>r4 * 3\<rceil> + 1))
                         in Some (if wrongAnswer' \<le> 0 \<or> wrongAnswer' = ans
                                  then ans + sz + 1 else wrongAnswer', rs''))
                    | _ \<Rightarrow> None)
              else Some (wrongAnswer, rs'))
      | _ \<Rightarrow> None)"

lemma wrongAnswerDraw_consumes:
  "wrongAnswerDraw n1 n2 ans sz rs = Some (w, rs') \<Longrightarrow> length rs' < length rs"
  by (auto simp: wrongAnswerDraw_def Let_def split: list.splits if_splits)

function fillOptions :: "int \<Rightarrow> int \<Rightarrow> int \<Rightarrow> int list \<Rightarrow> real list \<Rightarrow> int list option" where
  "fillOptions n1 n2 ans opts rs =
     (if length opts < 4
      then (case wrongAnswerDraw n1 n2 ans (int (length opts)) rs of
              None \<Rightarrow> None
            | Some (w, rs') \<Rightarrow> fillOptions n1 n2 ans (setAdd opts w) rs')
      else Some opts)"
  by pat_completeness auto
termination
  by (relation "measure (\<lambda>(n1, n2, ans, opts, rs). length rs)")
     (auto dest: wrongAnswerDraw_consumes)

declare fillOptions.simps [simp del]

text \<open>
  \<open>generateQuestion\<close> up to its \<open>set...\<close> calls: the Question it builds from the values \<open>c\<close>
  that the callback closes over (\<open>useCallback\<close> with the dependencies \<open>difficulty\<close>,
  \<open>correctAnswersCount\<close>, \<open>correctStreak\<close>, \<open>robuxScore\<close>, \<open>difficultyLevel\<close>,
  \<open>lastQuestion\<close>). \<open>sortRandomly\<close> stands for
  \<open>arr => arr.sort(() => Math.random() - 0.5)\<close>, whose result is a rearrangement of the
  array that depends on the engine's sorting algorithm; the theorems that need it assume
  only that it permutes its argument.
\<close>

definition generateQuestion ::
  "SourceFile \<Rightarrow> (int list \<Rightarrow> int list) \<Rightarrow> GameScreen \<Rightarrow> real list \<Rightarrow> Question option" where
  "generateQuestion src sortRandomly c rs =
     (case pickOperands src c rs of
        None \<Rightarrow> None
      | Some ((n1, n2), rs') \<Rightarrow>
          (let ans = n1 * n2
           in case fillOptions n1 n2 ans [ans] rs' of
                None \<Rightarrow> None
              | Some opts \<Rightarrow>
                  Some \<lparr>num1 = n1, num2 = n2, answer = ans, options = sortRandomly opts\<rparr>))"

text \<open>
  The state updates at the end of \<open>generateQuestion\<close>: \<open>setLastQuestion\<close>,
  \<open>setCurrentQuestion\<close>, \<open>setIsAnswered(false)\<close>, \<open>setFeedback({})\<close>.
\<close>

definition setQuestion :: "Question \<Rightarrow> GameScreen \<Rightarrow> GameScreen" where
  "setQuestion q st =
     st\<lparr>lastQuestion := Some (num1 q, num2 q),
        currentQuestion := Some q,
        isAnswered := False,
        feedback := None\<rparr>"

section \<open>Typed answers\<close>

text \<open>
  \<open>typedAnswer\<close> is the text of the input, taken as a string of characters below 256. The
  white space that \<open>trim\<close> and \<open>parseInt\<close> skip is, in that range, TAB, LF, VT, FF, CR,
  SPACE and NBSP.
\<close>

definition isWhiteSpace :: "char \<Rightarrow> bool" where
  "isWhiteSpace ch =
     (ch \<in> set [CHR 0x09, CHR 0x0A, CHR 0x0B, CHR 0x0C, CHR 0x0D, CHR 0x20, CHR 0xA0])"

definition trim :: "string \<Rightarrow> string" where
  "trim s = rev (dropWhile isWhiteSpace (rev (dropWhile isWhiteSpace s)))"

definition isDigit :: "char \<Rightarrow> bool" where
  "isDigit ch = (ch \<in> set ''0123456789'')"

definition digitValue :: "char \<Rightarrow> int" where
  "digitValue ch = of_char ch - 48"

text \<open>
  \<open>parseInt(s, 10)\<close>: skip leading white space, read an optional sign, then the longest
  run of decimal digits; \<open>NaN\<close> when that run is empty. What follows the digits is ignored.
  (The result is the exact integer; JavaScript rounds it to a double from \<open>2 ^ 53\<close> on,
  which no product of two operands reaches.)
\<close>

definition parseInt :: "string \<Rightarrow> jsnum" where
  "parseInt s =
     (let s1 = dropWhile isWhiteSpace s;
          sign = (case s1 of ch # _ \<Rightarrow> if ch = CHR ''-'' then - 1 else 1 | [] \<Rightarrow> 1);
          s2 = (case s1 of
                  ch # t \<Rightarrow> if ch = CHR ''-'' \<or> ch = CHR ''+'' then t else s1
                | [] \<Rightarrow> s1);
          digits = takeWhile isDigit s2
      in if digits = [] then NaN
         else Num (sign * foldl (\<lambda>n ch. 10 * n + digitValue ch) 0 digits))"

text \<open>\<open>userAnswer === currentQuestion?.answer\<close>: \<open>NaN\<close> equals nothing, and neither does
  the \<open>undefined\<close> of a missing question.\<close>

definition strictEquals :: "jsnum \<Rightarrow> Question option \<Rightarrow> bool" where
  "strictEquals x q =
     (case x of
        NaN \<Rightarrow> False
      | Num n \<Rightarrow> (case q of None \<Rightarrow> False | Some q' \<Rightarrow> n = answer q'))"

section \<open>Answer handlers\<close>

text \<open>
  A session is the state of one mounted \<open>GameScreen\<close> together with the \<open>setTimeout\<close>
  callbacks that are waiting (all with the same delay, so in the order they were set).
  A waiting callback is the \<open>generateQuestion\<close> of the render in which the handler ran,
  that is the values of that render, and whether it first calls \<open>setTypedAnswer('')\<close>.
\<close>

record Session =
  screen :: GameScreen
  timers :: "(GameScreen \<times> bool) list"

text \<open>
  The two handlers (index.tsx lines 478-545) have the same body but for the guard, the
  value that is compared and the timer:
  \<^verbatim>\<open>
  const handleAnswer = useCallback((selectedOption: number) => {
    if (isAnswered) return;
    setIsAnswered(true);
    if (selectedOption === currentQuestion?.answer) {
      setRobuxScore(score => score + 5);
      setCorrectStreak(streak => streak + 1);
      setCorrectAnswersCount(count => count + 1);
      setWrongStreak(0);
      setFeedback({});
    } else {
      const penalty = getPenalty(robuxScore);
      setRobuxScore(score => Math.max(0, score - penalty));
      setCorrectStreak(0);
      setWrongStreak(streak => streak + 1);
      setFeedback({ incorrectSelection: selectedOption });
    }
    setTimeout(() => { generateQuestion(); }, 1250);
  }, [isAnswered, currentQuestion, setRobuxScore, generateQuestion, robuxScore, language]);

  const handleTypedAnswerSubmit = useCallback((e: React.FormEvent) => {
    e.preventDefault();
    if (isAnswered || !typedAnswer.trim()) return;
    setIsAnswered(true);
    const userAnswer = parseInt(typedAnswer, 10);
    if (userAnswer === currentQuestion?.answer) { ... } else { ... }
    setTimeout(() => { setTypedAnswer(''); generateQuestion(); }, 1250);
  }, [...]);
  \<close>
  (The calls that speak the question and the compliment are left out.) A handler runs on
  the latest render, so the \<open>robuxScore\<close> it closes over is the score it updates. The two
  branches:
\<close>

definition correctUpdates :: "GameScreen \<Rightarrow> GameScreen" where
  "correctUpdates st =
     st\<lparr>isAnswered := True,
        robuxScore := robuxScore st + 5,
        correctStreak := correctStreak st + 1,
        correctAnswersCount := correctAnswersCount st + 1,
        wrongStreak := 0,
        feedback := None\<rparr>"

definition wrongUpdates :: "jsnum \<Rightarrow> GameScreen \<Rightarrow> GameScreen" where
  "wrongUpdates x st =
     (let penalty = getPenalty (robuxScore st)
      in st\<lparr>isAnswered := True,
            robuxScore := max 0 (robuxScore st - penalty),
            correctStreak := 0,
            wrongStreak := wrongStreak st + 1,
            feedback := Some x\<rparr>)"

definition handleAnswer :: "Session \<Rightarrow> int \<Rightarrow> Session" where
  "handleAnswer s selectedOption =
     (let st = screen s
      in if isAnswered st then s
         else \<lparr>screen = (if strictEquals (Num selectedOption) (currentQuestion st)
                          then correctUpdates st
                          else wrongUpdates (Num selectedOption) st),
                timers = timers s @ [(st, False)]\<rparr>)"

definition handleTypedAnswerSubmit :: "Session \<Rightarrow> Session" where
  "handleTypedAnswerSubmit s =
     (let st = screen s
      in if isAnswered st \<or> trim (typedAnswer st) = [] then s
         else (let userAnswer = parseInt (typedAnswer st)
               in \<lparr>screen = (if strictEquals userAnswer (currentQuestion st)
                               then correctUpdates st
                               else wrongUpdates userAnswer st),
                     timers = timers s @ [(st, True)]\<rparr>))"

section \<open>Effects\<close>

text \<open>
  \<^verbatim>\<open>
  useEffect(() => {
    switch (difficulty) {
      case Difficulty.Easy: setDifficultyLevel(0); break;
      case Difficulty.Moderate: setDifficultyLevel(2); break;
      case Difficulty.Hard: setDifficultyLevel(5); break;
    }
    setCorrectAnswersCount(0);
    setCorrectStreak(0);
    setWrongStreak(0);
  }, [difficulty]);

  useEffect(() => {
    if (wrongStreak > 0 && wrongStreak % 3 === 0) { // Every 3 consecutive wrong answers
        setDifficultyLevel(level => Math.max(0, level - 1));
    }
  }, [wrongStreak]);
  \<close>
  The first effect runs when the component mounts; \<open>difficulty\<close> does not change while it
  is mounted.
\<close>

definition difficultyEffect :: "GameScreen \<Rightarrow> GameScreen" where
  "difficultyEffect st =
     st\<lparr>difficultyLevel := (case difficulty st of Easy \<Rightarrow> 0 | Moderate \<Rightarrow> 2 | Hard \<Rightarrow> 5),
        correctAnswersCount := 0,
        correctStreak := 0,
        wrongStreak := 0\<rparr>"

text \<open>The body of the second effect.\<close>

definition wrongStreakEffect :: "GameScreen \<Rightarrow> GameScreen" where
  "wrongStreakEffect st =
     (if wrongStreak st > 0 \<and> wrongStreak st mod 3 = 0
      then st\<lparr>difficultyLevel := max 0 (difficultyLevel st - 1)\<rparr>
      else st)"

text \<open>
  After a render React runs an effect only when one of its dependencies differs from the
  previous render: \<open>prev\<close> is the state of the previous render.
\<close>

definition runEffects :: "GameScreen \<Rightarrow> GameScreen \<Rightarrow> GameScreen" where
  "runEffects prev st = (if wrongStreak st = wrongStreak prev then st else wrongStreakEffect st)"

section \<open>Sessions\<close>

text \<open>
  The \<open>useState\<close> initial values. The score is the \<open>robuxScore\<close> of \<open>App\<close>, which is 0
  whenever the difficulty is being selected (initially, and after \<open>handleReset\<close>).
\<close>

definition initialState :: "Difficulty \<Rightarrow> GameScreen" where
  "initialState d =
     \<lparr>difficulty = d, robuxScore = 0, currentQuestion = None, correctStreak = 0,
      wrongStreak = 0, correctAnswersCount = 0, feedback = None, isAnswered = False,
      difficultyLevel = 0, showIntroMessage = True, typedAnswer = [], lastQuestion = None\<rparr>"

definition mount :: "Difficulty \<Rightarrow> Session" where
  "mount d = \<lparr>screen = difficultyEffect (initialState d), timers = []\<rparr>"

text \<open>
  What can happen to a mounted \<open>GameScreen\<close>: the intro ends (the START button of
  \<open>index.tsx\<close>, the 4 second timer of the other file) and the first question is generated;
  an option button is clicked; the text of the input changes; the form is submitted; the
  oldest waiting timer fires. Generation events carry the random tape and the outcome of
  the random sort.

  The events are not restricted further: any option value can be clicked and text can be
  submitted at any score, and the session goes on past a score of 1000, where \<open>App\<close>
  unmounts the component. Every session of the application is therefore a run of this
  model, or the beginning of one.
\<close>

datatype Event =
    StartGame "real list" "int list \<Rightarrow> int list"
  | ClickOption int
  | TypeText string
  | SubmitTyped
  | TimerFires "real list" "int list \<Rightarrow> int list"

text \<open>
  One event. While the intro is shown the component renders nothing but the intro, so no
  answer can be given; once it is gone it never comes back. A timer runs the
  \<open>generateQuestion\<close> it was set with: it reads the values of the render in which the
  answer was given (the score and the streaks before that answer), and its \<open>set...\<close>
  calls update the current state. An answer is followed by the effects of the next
  render. \<open>None\<close>: the generation did not finish on its tape.
\<close>

fun step :: "SourceFile \<Rightarrow> Session \<Rightarrow> Event \<Rightarrow> Session option" where
  "step src s (StartGame rs sortRandomly) =
     (if showIntroMessage (screen s)
      then (case generateQuestion src sortRandomly (screen s) rs of
              None \<Rightarrow> None
            | Some q \<Rightarrow> Some (s\<lparr>screen := setQuestion q ((screen s)\<lparr>showIntroMessage := False\<rparr>)\<rparr>))
      else Some s)"
| "step src s (ClickOption x) =
     (if showIntroMessage (screen s) then Some s
      else (let s' = handleAnswer s x
            in Some (s'\<lparr>screen := runEffects (screen s) (screen s')\<rparr>)))"
| "step src s (TypeText t) =
     (if showIntroMessage (screen s) then Some s
      else Some (s\<lparr>screen := (screen s)\<lparr>typedAnswer := t\<rparr>\<rparr>))"
| "step src s SubmitTyped =
     (if showIntroMessage (screen s) then Some s
      else (let s' = handleTypedAnswerSubmit s
            in Some (s'\<lparr>screen := runEffects (screen s) (screen s')\<rparr>)))"
| "step src s (TimerFires rs sortRandomly) =
     (case timers s of
        [] \<Rightarrow> Some s
      | (c, clearTyped) # ts \<Rightarrow>
          (case generateQuestion src sortRandomly c rs of
             None \<Rightarrow> None
           | Some q \<Rightarrow>
               Some \<lparr>screen = setQuestion q
                                (if clearTyped then (screen s)\<lparr>typedAnswer := []\<rparr> else screen s),
                     timers = ts\<rparr>))"

fun run :: "SourceFile \<Rightarrow> Session \<Rightarrow> Event list \<Rightarrow> Session option" where
  "run src s [] = Some s"
| "run src s (e # es) = (case step src s e of None \<Rightarrow> None | Some s' \<Rightarrow> run src s' es)"

section \<open>Vocabulary of the properties\<close>

definition nonNegative :: "GameScreen \<Rightarrow> bool" where
  "nonNegative st =
     (0 \<le> robuxScore st \<and> 0 \<le> correctStreak st \<and> 0 \<le> wrongStreak st
      \<and> 0 \<le> correctAnswersCount st \<and> 0 \<le> difficultyLevel st)"

definition operandPair :: "Question \<Rightarrow> int \<times> int" where
  "operandPair q = (num1 q, num2 q)"

text \<open>
  What holds of every session that starts with \<open>mount\<close>: no counter is negative, in the
  state and in the values that a waiting timer closed over; at most one timer waits, and
  only while the question is answered; \<open>lastQuestion\<close> is the operand pair of the question
  on screen, in the state and in the waiting closure; and there is no question before the
  intro ends.
\<close>

definition sessionInvariant :: "Session \<Rightarrow> bool" where
  "sessionInvariant s =
     (nonNegative (screen s)
      \<and> list_all (\<lambda>(c, b). nonNegative c \<and> lastQuestion c = lastQuestion (screen s)) (timers s)
      \<and> length (timers s) \<le> 1
      \<and> (timers s = [] \<or> isAnswered (screen s))
      \<and> lastQuestion (screen s) = map_option operandPair (currentQuestion (screen s))
      \<and> (showIntroMessage (screen s) \<longrightarrow> currentQuestion (screen s) = None \<and> timers s = []))"

text \<open>
  An event is an evaluation when it is an answer that passes its handler's guard: the
  question is not answered yet and, for a typed answer, the text is not blank.
\<close>

fun evaluates :: "Session \<Rightarrow> Event \<Rightarrow> bool" where
  "evaluates s (ClickOption x) =
     (\<not> showIntroMessage (screen s) \<and> \<not> isAnswered (screen s))"
| "evaluates s SubmitTyped =
     (\<not> showIntroMessage (screen s) \<and> \<not> isAnswered (screen s)
      \<and> trim (typedAnswer (screen s)) \<noteq> [])"
| "evaluates s _ = False"

text \<open>The number of evaluations among the events of a run.\<close>

fun evaluations :: "SourceFile \<Rightarrow> Session \<Rightarrow> Event list \<Rightarrow> nat" where
  "evaluations src s [] = 0"
| "evaluations src s (e # es) =
     (if evaluates s e then 1 else 0)
     + (case step src s e of None \<Rightarrow> 0 | Some s' \<Rightarrow> evaluations src s' es)"

definition oneStreak :: "GameScreen \<Rightarrow> bool" where
  "oneStreak st =
     ((correctStreak st = 0 \<and> 0 < wrongStreak st) \<or> (0 < correctStreak st \<and> wrongStreak st = 0))"

text \<open>What the spec asks of a Question.\<close>

definition wellFormed :: "Question \<Rightarrow> bool" where
  "wellFormed q =
     (answer q = num1 q * num2 q \<and> answer q \<in> set (options q) \<and> length (options q) = 4
      \<and> distinct (options q) \<and> list_all (\<lambda>x. 0 < x) (options q))"

text \<open>
  A generation event is regular when its tape holds values of \<open>Math.random()\<close> and its
  sort permutes the options.
\<close>

fun regular :: "Event \<Rightarrow> bool" where
  "regular (StartGame rs sortRandomly) =
     (list_all unitInterval rs \<and> (\<forall>xs. mset (sortRandomly xs) = mset xs))"
| "regular (TimerFires rs sortRandomly) =
     (list_all unitInterval rs \<and> (\<forall>xs. mset (sortRandomly xs) = mset xs))"
| "regular _ = True"

section \<open>The states and tapes of the examples\<close>

definition sixTimesSeven :: Question where
  "sixTimesSeven = \<lparr>num1 = 6, num2 = 7, answer = 42, options = [35, 42, 49, 48]\<rparr>"

text \<open>
  A Hard session that shows \<open>6 x 7\<close>, not answered yet, with the given score, wrong streak
  and input text.
\<close>

definition playing :: "int \<Rightarrow> int \<Rightarrow> string \<Rightarrow> Session" where
  "playing sc ws txt =
     \<lparr>screen = \<lparr>difficulty = Hard, robuxScore = sc, currentQuestion = Some sixTimesSeven,
                 correctStreak = 0, wrongStreak = ws, correctAnswersCount = 0,
                 feedback = None, isAnswered = False, difficultyLevel = 5,
                 showIntroMessage = False, typedAnswer = txt, lastQuestion = Some (6, 7)\<rparr>,
      timers = []\<rparr>"

text \<open>A tape on which the first question of an Easy session is \<open>2 x 7\<close>.\<close>

definition firstTape :: "real list" where
  "firstTape = [1/4, 6/10, 3/4, 9/10, 3/4, 2/10, 1/10, 2/10, 1/2, 1/2, 0, 9/10, 1/10]"

text \<open>A tape whose first pass draws \<open>2 x 7\<close> again, so that the loop makes a second pass.\<close>

definition secondTape :: "real list" where
  "secondTape =
     [1/4, 6/10, 3/4, 3/4, 4/10, 3/4, 9/10, 3/4, 2/10, 1/10, 2/10, 1/2, 1/2, 0, 9/10, 1/10]"

text \<open>The session of the examples after its first question is answered, correctly.\<close>

definition afterFirstAnswer :: Session where
  "afterFirstAnswer =
     \<lparr>screen =
        \<lparr>difficulty = Easy, robuxScore = 5,
         currentQuestion = Some \<lparr>num1 = 2, num2 = 7, answer = 14, options = [20, 8, 22, 14]\<rparr>,
         correctStreak = 1, wrongStreak = 0, correctAnswersCount = 1, feedback = None,
         isAnswered = True, difficultyLevel = 0, showIntroMessage = False, typedAnswer = [],
         lastQuestion = Some (2, 7)\<rparr>,
      timers =
        [(\<lparr>difficulty = Easy, robuxScore = 0,
           currentQuestion = Some \<lparr>num1 = 2, num2 = 7, answer = 14, options = [20, 8, 22, 14]\<rparr>,
           correctStreak = 0, wrongStreak = 0, correctAnswersCount = 0, feedback = None,
           isAnswered = False, difficultyLevel = 0, showIntroMessage = False, typedAnswer = [],
           lastQuestion = Some (2, 7)\<rparr>,
          False)]\<rparr>"

text \<open>
  The events of an Easy session with the questions \<open>2 x 7\<close> and \<open>3 x 5\<close> in turn: 19 of
  them answered correctly, and \<open>3 x 5\<close> on screen at score 95.
\<close>

definition nineteenCorrect :: "Event list" where
  "nineteenCorrect =
     StartGame firstTape rev
     # concat (replicate 9
         [ClickOption 14, TimerFires secondTape rev, ClickOption 15, TimerFires firstTape rev])
     @ [ClickOption 14, TimerFires secondTape rev]"

text \<open>
  A Moderate session at score 100, after 20 correct answers, with \<open>5 x 3\<close> on screen.
\<close>

definition scoreHundred :: GameScreen where
  "scoreHundred =
     \<lparr>difficulty = Moderate, robuxScore = 100,
      currentQuestion = Some \<lparr>num1 = 5, num2 = 3, answer = 15, options = [20, 21, 35, 15]\<rparr>,
      correctStreak = 20, wrongStreak = 0, correctAnswersCount = 20, feedback = None,
      isAnswered = False, difficultyLevel = 2, showIntroMessage = False, typedAnswer = [],
      lastQuestion = Some (5, 3)\<rparr>"

text \<open>
  Tapes on which the Moderate branch draws \<open>5 x 3\<close> and \<open>4 x 2\<close>, and the events of a
  session with these two questions in turn, each answered correctly, 20 answers in all.
\<close>

definition fiveTimesThreeTape :: "real list" where
  "fiveTimesThreeTape = [1/4, 2/10, 3/4, 9/10, 3/4, 7/10, 1/4, 6/10, 3/4]"

definition fourTimesTwoTape :: "real list" where
  "fourTimesTwoTape = [0, 1/10, 3/4, 9/10, 3/4, 7/10, 1/4, 8/10, 1/4]"

definition twentyCorrect :: "Event list" where
  "twentyCorrect =
     StartGame fiveTimesThreeTape rev
     # concat (replicate 10
         [ClickOption 15, TimerFires fourTimesTwoTape rev,
          ClickOption 8, TimerFires fiveTimesThreeTape rev])"

text \<open>
  The events of an Easy session with the questions \<open>2 x 7\<close> and \<open>3 x 5\<close> in turn, each
  answered correctly, 30 answers in all; and the session they lead to: a streak of 30
  at score 150, with \<open>2 x 7\<close> on screen.
\<close>

definition thirtyCorrect :: "Event list" where
  "thirtyCorrect =
     StartGame firstTape rev
     # concat (replicate 15
         [ClickOption 14, TimerFires secondTape rev, ClickOption 15, TimerFires firstTape rev])"

definition streakThirty :: Session where
  "streakThirty =
     \<lparr>screen =
        \<lparr>difficulty = Easy, robuxScore = 150,
         currentQuestion = Some \<lparr>num1 = 2, num2 = 7, answer = 14, options = [20, 8, 22, 14]\<rparr>,
         correctStreak = 30, wrongStreak = 0, correctAnswersCount = 30, feedback = None,
         isAnswered = False, difficultyLevel = 0, showIntroMessage = False, typedAnswer = [],
         lastQuestion = Some (2, 7)\<rparr>,
      timers = []\<rparr>"

text \<open>
  The events of a Moderate session that reaches a score of 799, with the questions
  \<open>5 x 3\<close> and \<open>4 x 2\<close> in turn: two correct answers (score 10), three wrong ones (score
  4), then 159 correct ones; and the session they lead to, with \<open>5 x 3\<close> on screen.
\<close>

definition upTo799 :: "Event list" where
  "upTo799 =
     [StartGame fiveTimesThreeTape rev,
      ClickOption 15, TimerFires fourTimesTwoTape rev,
      ClickOption 8, TimerFires fiveTimesThreeTape rev,
      ClickOption 20, TimerFires fourTimesTwoTape rev,
      ClickOption 14, TimerFires fiveTimesThreeTape rev,
      ClickOption 20, TimerFires fourTimesTwoTape rev]
     @ concat (replicate 79
         [ClickOption 8, TimerFires fiveTimesThreeTape rev,
          ClickOption 15, TimerFires fourTimesTwoTape rev])
     @ [ClickOption 8, TimerFires fiveTimesThreeTape rev]"

definition score799 :: Session where
  "score799 =
     \<lparr>screen =
        \<lparr>difficulty = Moderate, robuxScore = 799,
         currentQuestion = Some \<lparr>num1 = 5, num2 = 3, answer = 15, options = [20, 21, 35, 15]\<rparr>,
         correctStreak = 159, wrongStreak = 0, correctAnswersCount = 161, feedback = None,
         isAnswered = False, difficultyLevel = 1, showIntroMessage = False, typedAnswer = [],
         lastQuestion = Some (5, 3)\<rparr>,
      timers = []\<rparr>"

section \<open>Evaluation at concrete inputs\<close>

lemmas eval_defs =
  generateQuestion_def pickOperands.simps loopBody_def drawOperands_def
  scoreOverrideRule_def hardRule_def moderateRule_def easyRule_def fallbackRule_def
  noTimesOne_def isRepeated_def pickFrom_def floorRandom_def
  fillOptions.simps wrongAnswerDraw_def setAdd_def Let_def unitInterval_def
  mount_def initialState_def difficultyEffect_def

lemmas handler_defs =
  handleAnswer_def handleTypedAnswerSubmit_def correctUpdates_def wrongUpdates_def
  strictEquals_def getPenalty_def runEffects_def wrongStreakEffect_def Let_def
  parseInt_def trim_def isWhiteSpace_def isDigit_def digitValue_def
  playing_def sixTimesSeven_def

section \<open>The products in double arithmetic\<close>

text \<open>The spacing at \<open>x\<close> is at most \<open>x / 2 ^ 52\<close>, or the smallest one.\<close>

lemma ulp_positive: "0 < ulp x"
  by (simp add: ulp_def)

lemma ulp_le:
  assumes "0 < x"
  shows "ulp x \<le> max (x / 2 ^ 52) (1 / 2 ^ 1074)"
proof -
  have "2 powr of_int \<lfloor>log 2 x\<rfloor> \<le> 2 powr log 2 x"
    by (rule powr_mono) simp_all
  with assms have 1: "2 powr of_int \<lfloor>log 2 x\<rfloor> \<le> x" by simp
  have "(2 :: real) powr of_int (\<lfloor>log 2 x\<rfloor> - 52) = 2 powr of_int \<lfloor>log 2 x\<rfloor> / 2 ^ 52"
    by (simp add: powr_diff)
  with 1 have 2: "2 powr of_int (\<lfloor>log 2 x\<rfloor> - 52) \<le> x / 2 ^ 52"
    by (simp add: divide_right_mono)
  have 3: "(2 :: real) powr of_int (- 1074) = 1 / 2 ^ 1074"
    by (simp add: powr_minus_divide)
  show ?thesis
  proof (cases "\<lfloor>log 2 x\<rfloor> - 52 \<le> - 1074")
    case True
    then have "max (\<lfloor>log 2 x\<rfloor> - 52) (- 1074) = - 1074" by simp
    with assms 3 show ?thesis by (simp add: ulp_def)
  next
    case False
    then have "max (\<lfloor>log 2 x\<rfloor> - 52) (- 1074) = \<lfloor>log 2 x\<rfloor> - 52" by simp
    with assms 2 show ?thesis by (simp add: ulp_def)
  qed
qed

text \<open>Rounding moves a number that is not negative by at most half the spacing.\<close>

lemma roundToDouble_bounds:
  assumes "0 \<le> x"
  shows "0 \<le> roundToDouble x \<and> roundToDouble x \<le> x + ulp x / 2"
proof -
  define u where "u = ulp x"
  define q where "q = x / u"
  define f where "f = \<lfloor>q\<rfloor>"
  have u: "0 < u" by (simp add: u_def ulp_positive)
  with assms have q: "0 \<le> q" by (simp add: q_def)
  then have f: "0 \<le> f" by (simp add: f_def)
  have fq: "of_int f \<le> q" by (simp add: f_def)
  have x: "x = q * u" using u by (simp add: q_def)
  have rd: "roundToDouble x
      = of_int (if q - of_int f < 1 / 2 \<or> (q - of_int f = 1 / 2 \<and> even f) then f else f + 1) * u"
    by (simp only: roundToDouble_def Let_def u_def q_def f_def)
  have "0 \<le> roundToDouble x \<and> roundToDouble x \<le> x + u / 2"
  proof (cases "q - of_int f < 1 / 2 \<or> (q - of_int f = 1 / 2 \<and> even f)")
    case True
    then have r: "roundToDouble x = of_int f * u"
      by (simp only: rd if_True)
    from fq u have "of_int f * u \<le> q * u" by (simp add: mult_right_mono)
    then have "of_int f * u \<le> x" by (simp only: x)
    moreover from f u have "0 \<le> of_int f * u" by simp
    moreover from u have "0 \<le> u / 2" by simp
    ultimately have "0 \<le> of_int f * u \<and> of_int f * u \<le> x + u / 2" by linarith
    then show ?thesis by (simp only: r)
  next
    case False
    then have r: "roundToDouble x = of_int (f + 1) * u"
      by (simp only: rd if_False)
    from False have "of_int (f + 1) \<le> q + 1 / 2" by simp
    with u have "of_int (f + 1) * u \<le> (q + 1 / 2) * u" by (simp only: mult_right_mono less_imp_le)
    also have "\<dots> = q * u + u / 2" by (simp add: algebra_simps)
    finally have "of_int (f + 1) * u \<le> x + u / 2" by (simp only: x)
    moreover from f u have "0 \<le> of_int (f + 1) * u" by simp
    ultimately have "0 \<le> of_int (f + 1) * u \<and> of_int (f + 1) * u \<le> x + u / 2" by blast
    then show ?thesis by (simp only: r)
  qed
  then show ?thesis by (simp only: u_def)
qed

lemma roundToDouble_zero: "roundToDouble 0 = 0"
  by (simp add: roundToDouble_def)

text \<open>
  The rounded product of an \<open>r\<close> that is at most \<open>1 - 2 ^ -53\<close> and a positive integer \<open>n\<close>
  is below \<open>n\<close>.
\<close>

lemma roundedProduct_range:
  assumes "0 \<le> r" and "r \<le> 1 - 1 / 2 ^ 53" and "0 < n"
  shows "0 \<le> roundToDouble (r * of_int n) \<and> roundToDouble (r * of_int n) < of_int n"
proof -
  define x where "x = r * of_int n"
  from assms have x0: "0 \<le> x" by (simp add: x_def)
  from assms(3) have n1: "1 \<le> real_of_int n" by simp
  from assms(2,3) have "x \<le> (1 - 1 / 2 ^ 53) * of_int n"
    by (simp add: x_def mult_right_mono)
  then have xn: "x \<le> of_int n - of_int n / 2 ^ 53" by (simp add: algebra_simps)
  note b = roundToDouble_bounds [OF x0]
  have "roundToDouble x < of_int n"
  proof (cases "x = 0")
    case True
    with n1 show ?thesis by (simp add: roundToDouble_zero)
  next
    case False
    with x0 have "0 < x" by simp
    from ulp_le [OF this] have "ulp x \<le> x / 2 ^ 52 \<or> ulp x \<le> 1 / 2 ^ 1074" by linarith
    then show ?thesis
    proof
      assume "ulp x \<le> x / 2 ^ 52"
      then have "ulp x / 2 \<le> x / 2 ^ 53" by simp
      with b have "roundToDouble x \<le> x + x / 2 ^ 53" by linarith
      also have "\<dots> = x * (1 + 1 / 2 ^ 53)" by (simp add: algebra_simps)
      also from xn have "\<dots> \<le> (of_int n - of_int n / 2 ^ 53) * (1 + 1 / 2 ^ 53)"
        by (rule mult_right_mono) simp
      also have "\<dots> = of_int n * (1 - 1 / 2 ^ 106)" by (simp add: algebra_simps)
      also from n1 have "\<dots> < of_int n" by simp
      finally show ?thesis .
    next
      assume "ulp x \<le> 1 / 2 ^ 1074"
      then have "ulp x / 2 \<le> 1 / 2 ^ 1075" by simp
      with b have 1: "roundToDouble x \<le> x + 1 / 2 ^ 1075" by linarith
      from n1 have "real_of_int n / 2 ^ 53 \<ge> 1 / 2 ^ 53" by (simp add: divide_right_mono)
      with xn have "x \<le> of_int n - 1 / 2 ^ 53" by linarith
      moreover have "(1 :: real) / 2 ^ 1075 < 1 / 2 ^ 53" by simp
      ultimately show ?thesis using 1 by linarith
    qed
  qed
  with b show ?thesis by (simp add: x_def)
qed

lemma floor_log2:
  assumes "2 powr of_int e \<le> x" and "x < 2 powr of_int (e + 1)"
  shows "\<lfloor>log 2 x\<rfloor> = e"
proof -
  have "0 < (2 :: real) powr of_int e" by simp
  with assms(1) have x: "0 < x" by linarith
  from assms(1) x have 1: "of_int e \<le> log 2 x" by (simp add: le_log_iff)
  from assms(2) x have 2: "log 2 x < of_int (e + 1)" by (simp add: log_less_iff)
  from 1 2 show ?thesis by (simp add: floor_unique)
qed

text \<open>The largest double below 1 is \<open>1 - 2 ^ -53\<close>.\<close>

lemma double_below_one:
  assumes "isDouble r" and "0 \<le> r" and "r < 1"
  shows "r \<le> 1 - 1 / 2 ^ 53"
proof (cases "r < 1 / 2")
  case True
  then show ?thesis by simp
next
  case False
  have p: "(2 :: real) powr of_int (- 1) = 1 / 2" "(2 :: real) powr of_int (- 1 + 1) = 1"
    by (simp_all add: powr_minus_divide)
  from False have a: "2 powr of_int (- 1) \<le> r" by (simp only: p not_less)
  from assms(3) have b: "r < 2 powr of_int (- 1 + 1)" by (simp only: p)
  from floor_log2 [OF a b] have "\<lfloor>log 2 r\<rfloor> = - 1" .
  with assms(2) have "ulp r = 2 powr of_int (- 53)" by (simp add: ulp_def)
  also have "\<dots> = 1 / 2 ^ 53" by (simp add: powr_minus_divide)
  finally have u: "ulp r = 1 / 2 ^ 53" .
  from assms(1) obtain k :: int where "r = of_int k * ulp r"
    unfolding isDouble_def roundToDouble_def Let_def by metis
  then have "r = of_int k * (1 / 2 ^ 53)" by (simp only: u)
  then have k: "r = of_int k / 2 ^ 53" by simp
  with assms(3) have "real_of_int k < 2 ^ 53" by simp
  then have "k < 2 ^ 53" by simp
  then have "k \<le> 2 ^ 53 - 1" by simp
  then have "real_of_int k \<le> 2 ^ 53 - 1" by simp
  with k show ?thesis by (simp add: field_simps)
qed

text \<open>
  So the code's \<open>Math.floor(Math.random() * n)\<close> lies in \<open>0 .. n - 1\<close>, and is the value of
  \<open>floorRandom\<close> on some number of the unit interval; its
  \<open>Math.ceil(Math.random() * 3)\<close> is likewise the model's on some number of the unit
  interval.
\<close>

lemma floorRandomDouble_range:
  assumes "isDouble r" and "0 \<le> r" and "r < 1" and "0 < n"
  shows "0 \<le> floorRandomDouble r n \<and> floorRandomDouble r n < n"
  using roundedProduct_range [OF assms(2) double_below_one [OF assms(1-3)] assms(4)]
  by (simp add: floorRandomDouble_def floor_less_iff)

lemma floorRandomDouble_on_tape:
  assumes "isDouble r" and "0 \<le> r" and "r < 1" and "0 < n"
  shows "\<exists>r'. unitInterval r' \<and> floorRandom r' n = floorRandomDouble r n"
proof -
  define k where "k = floorRandomDouble r n"
  from floorRandomDouble_range [OF assms] have k: "0 \<le> k" "k < n" by (simp_all add: k_def)
  with assms(4) have "unitInterval (of_int k / of_int n)" by (simp add: unitInterval_def)
  moreover from assms(4) have "floorRandom (of_int k / of_int n) n = k"
    by (simp add: floorRandom_def)
  ultimately show ?thesis unfolding k_def by blast
qed

lemma ceilingDouble_on_tape:
  assumes "isDouble r" and "0 \<le> r" and "r < 1"
  shows "\<exists>r'. unitInterval r' \<and> \<lceil>r' * 3\<rceil> = \<lceil>roundToDouble (r * 3)\<rceil>"
proof -
  define k where "k = \<lceil>roundToDouble (r * 3)\<rceil>"
  from roundedProduct_range [OF assms(2) double_below_one [OF assms], of 3]
  have "0 \<le> roundToDouble (r * 3)" "roundToDouble (r * 3) < 3" by simp_all
  then have k: "0 \<le> k" "k \<le> 3" by (simp_all add: k_def ceiling_le_iff)
  show ?thesis
  proof (cases "k = 0")
    case True
    then have "unitInterval 0 \<and> \<lceil>0 * 3 :: real\<rceil> = k" by (simp add: unitInterval_def)
    then show ?thesis unfolding k_def by blast
  next
    case False
    with k have "k \<in> {1, 2, 3}" by auto
    then have "unitInterval ((of_int k - 1 / 2) / 3) \<and> \<lceil>(of_int k - 1 / 2) / 3 * 3 :: real\<rceil> = k"
      by (auto simp: unitInterval_def ceiling_eq_iff)
    then show ?thesis unfolding k_def by blast
  qed
qed

text \<open>
  The two floors can differ: \<open>2573485501354569 / 2 ^ 52\<close> is the double that is written
  \<open>0.5714285714285714\<close>; its product with 7 is \<open>4 - 2 ^ -52\<close>, half way between two doubles,
  and is rounded to 4.
\<close>

lemma floorRandom_differs:
  "isDouble (2573485501354569 / 2 ^ 52)
   \<and> floorRandom (2573485501354569 / 2 ^ 52) 7 = 3
   \<and> floorRandomDouble (2573485501354569 / 2 ^ 52) 7 = 4"
proof -
  let ?r = "2573485501354569 / 2 ^ 52 :: real"
  have p: "(2 :: real) powr of_int (- 1) = 1 / 2" "(2 :: real) powr of_int (- 1 + 1) = 1"
    "(2 :: real) powr of_int 1 = 2" "(2 :: real) powr of_int (1 + 1) = 4"
    by (simp_all add: powr_minus_divide)
  have "2 powr of_int (- 1) \<le> ?r" "?r < 2 powr of_int (- 1 + 1)" by (simp_all only: p) simp_all
  from floor_log2 [OF this] have "\<lfloor>log 2 ?r\<rfloor> = - 1" .
  then have "ulp ?r = 2 powr of_int (- 53)" by (simp add: ulp_def)
  also have "\<dots> = 1 / 2 ^ 53" by (simp add: powr_minus_divide)
  finally have u: "ulp ?r = 1 / 2 ^ 53" .
  have 1: "isDouble ?r" by (simp only: isDouble_def roundToDouble_def u Let_def) simp
  have 2: "floorRandom ?r 7 = 3" by (simp add: floorRandom_def)
  have "2 powr of_int 1 \<le> ?r * 7" "?r * 7 < 2 powr of_int (1 + 1)" by (simp_all only: p) simp_all
  from floor_log2 [OF this] have "\<lfloor>log 2 (?r * 7)\<rfloor> = 1" .
  then have "ulp (?r * 7) = 2 powr of_int (- 51)" by (simp add: ulp_def)
  also have "\<dots> = 1 / 2 ^ 51" by (simp add: powr_minus_divide)
  finally have u7: "ulp (?r * 7) = 1 / 2 ^ 51" .
  have "roundToDouble (?r * 7) = 4" by (simp only: roundToDouble_def u7 Let_def) simp
  then have 3: "floorRandomDouble ?r 7 = 4" by (simp add: floorRandomDouble_def)
  from 1 2 3 show ?thesis by blast
qed

text \<open>
  A number in the range of the normal doubles whose quotient by the spacing is an integer
  is a double. The products of the dyadic draws that the examples of the last two
  sections use are of this kind, so there the code computes what the model computes.
\<close>

lemma roundToDouble_exact:
  assumes "2 powr of_int e \<le> x" and "x < 2 powr of_int (e + 1)" and "- 1022 \<le> e"
    and "x * 2 powr of_int (52 - e) \<in> \<int>"
  shows "roundToDouble x = x"
proof -
  have "0 < (2 :: real) powr of_int e" by simp
  with assms(1) have x: "0 < x" by linarith
  from assms(3) have "max (e - 52) (- 1074) = e - 52" by simp
  with floor_log2 [OF assms(1,2)] x have u: "ulp x = 2 powr of_int (e - 52)"
    by (simp only: ulp_def abs_of_pos)
  have "x / 2 powr of_int (e - 52) = x * 2 powr of_int (52 - e)"
    by (simp add: powr_diff field_simps)
  with assms(4) obtain k :: int where k: "x / 2 powr of_int (e - 52) = of_int k"
    by (auto elim: Ints_cases)
  then have "of_int k * 2 powr of_int (e - 52) = x" by (simp add: field_simps)
  moreover have "roundToDouble x = of_int k * 2 powr of_int (e - 52)"
    by (simp only: roundToDouble_def Let_def u k) simp
  ultimately show ?thesis by simp
qed

lemma dyadic_products_exact:
  "floorRandomDouble (15/16) 14 = floorRandom (15/16) 14"
  "floorRandomDouble (1/2) 12 = floorRandom (1/2) 12"
  "floorRandomDouble (7/8) 10 = floorRandom (7/8) 10"
  "floorRandomDouble (3/4) 10 = floorRandom (3/4) 10"
  "floorRandomDouble (5/8) 10 = floorRandom (5/8) 10"
  "floorRandomDouble (1/8) 10 = floorRandom (1/8) 10"
  "floorRandomDouble 0 4 = floorRandom 0 4"
  "floorRandomDouble (1/8) 7 = floorRandom (1/8) 7"
  "floorRandomDouble (15/16) 4 = floorRandom (15/16) 4"
  "floorRandomDouble (1/2) 4 = floorRandom (1/2) 4"
proof -
  have p: "(2 :: real) powr of_int 0 = 1" "(2 :: real) powr of_int (0 + 1) = 2"
    "(2 :: real) powr of_int 2 = 4" "(2 :: real) powr of_int (2 + 1) = 8"
    "(2 :: real) powr of_int 3 = 8" "(2 :: real) powr of_int (3 + 1) = 16"
    "(2 :: real) powr of_int (52 - 0) = 2 ^ 52" "(2 :: real) powr of_int (52 - 2) = 2 ^ 50"
    "(2 :: real) powr of_int (52 - 3) = 2 ^ 49"
    "(2 :: real) powr of_int (- 1) = 1 / 2" "(2 :: real) powr of_int (- 1 + 1) = 1"
    "(2 :: real) powr of_int 1 = 2" "(2 :: real) powr of_int (1 + 1) = 4"
    "(2 :: real) powr of_int (52 - - 1) = 2 ^ 53" "(2 :: real) powr of_int (52 - 1) = 2 ^ 51"
    by (simp_all add: powr_minus_divide)
  have "roundToDouble (15/16 * of_int 14) = 15/16 * of_int 14"
    by (rule roundToDouble_exact [of 3]) (simp_all only: p, simp_all)
  then show "floorRandomDouble (15/16) 14 = floorRandom (15/16) 14"
    by (simp only: floorRandomDouble_def floorRandom_def)
  have "roundToDouble (1/2 * of_int 12) = 1/2 * of_int 12"
    by (rule roundToDouble_exact [of 2]) (simp_all only: p, simp_all)
  then show "floorRandomDouble (1/2) 12 = floorRandom (1/2) 12"
    by (simp only: floorRandomDouble_def floorRandom_def)
  have "roundToDouble (7/8 * of_int 10) = 7/8 * of_int 10"
    by (rule roundToDouble_exact [of 3]) (simp_all only: p, simp_all)
  then show "floorRandomDouble (7/8) 10 = floorRandom (7/8) 10"
    by (simp only: floorRandomDouble_def floorRandom_def)
  have "roundToDouble (3/4 * of_int 10) = 3/4 * of_int 10"
    by (rule roundToDouble_exact [of 2]) (simp_all only: p, simp_all)
  then show "floorRandomDouble (3/4) 10 = floorRandom (3/4) 10"
    by (simp only: floorRandomDouble_def floorRandom_def)
  have "roundToDouble (5/8 * of_int 10) = 5/8 * of_int 10"
    by (rule roundToDouble_exact [of 2]) (simp_all only: p, simp_all)
  then show "floorRandomDouble (5/8) 10 = floorRandom (5/8) 10"
    by (simp only: floorRandomDouble_def floorRandom_def)
  have "roundToDouble (1/8 * of_int 10) = 1/8 * of_int 10"
    by (rule roundToDouble_exact [of 0]) (simp_all only: p, simp_all)
  then show "floorRandomDouble (1/8) 10 = floorRandom (1/8) 10"
    by (simp only: floorRandomDouble_def floorRandom_def)
  show "floorRandomDouble 0 4 = floorRandom 0 4"
    by (simp add: floorRandomDouble_def floorRandom_def roundToDouble_zero)
  have "roundToDouble (1/8 * of_int 7) = 1/8 * of_int 7"
    by (rule roundToDouble_exact [of "- 1"]) (simp_all only: p, simp_all)
  then show "floorRandomDouble (1/8) 7 = floorRandom (1/8) 7"
    by (simp only: floorRandomDouble_def floorRandom_def)
  have "roundToDouble (15/16 * of_int 4) = 15/16 * of_int 4"
    by (rule roundToDouble_exact [of 1]) (simp_all only: p, simp_all)
  then show "floorRandomDouble (15/16) 4 = floorRandom (15/16) 4"
    by (simp only: floorRandomDouble_def floorRandom_def)
  have "roundToDouble (1/2 * of_int 4) = 1/2 * of_int 4"
    by (rule roundToDouble_exact [of 1]) (simp_all only: p, simp_all)
  then show "floorRandomDouble (1/2) 4 = floorRandom (1/2) 4"
    by (simp only: floorRandomDouble_def floorRandom_def)
qed

section \<open>The draws and the operands\<close>

text \<open>\<open>Math.floor(Math.random() * n)\<close> lies in \<open>0 .. n - 1\<close>.\<close>

lemma floorRandom_bounds:
  assumes "unitInterval r" "0 < n"
  shows "0 \<le> floorRandom r n \<and> floorRandom r n < n"
proof -
  from assms have "0 \<le> r * of_int n" by (simp add: unitInterval_def)
  moreover from assms have "r * of_int n < of_int n" by (simp add: unitInterval_def)
  ultimately show ?thesis by (simp add: floorRandom_def floor_less_iff)
qed

lemma pickFrom4:
  assumes "unitInterval r"
  shows "pickFrom [a, b, c, d] r \<in> {a, b, c, d}"
proof -
  from floorRandom_bounds [OF assms, of 4]
  have "nat (floorRandom r 4) \<in> {0, 1, 2, 3}" by auto
  then show ?thesis by (auto simp: pickFrom_def)
qed

text \<open>What a branch returns of its tape is part of the tape.\<close>

lemma fallbackRule_tape:
  "fallbackRule c rs = Some (p, rs') \<Longrightarrow> set rs' \<subseteq> set rs"
  by (auto simp: fallbackRule_def Let_def split: list.splits if_splits)

lemma scoreOverrideRule_tape:
  "scoreOverrideRule rs = Some (p, rs') \<Longrightarrow> set rs' \<subseteq> set rs"
  by (auto simp: scoreOverrideRule_def Let_def split: list.splits)

lemma hardRule_tape:
  "hardRule rs = Some (p, rs') \<Longrightarrow> set rs' \<subseteq> set rs"
  by (auto simp: hardRule_def Let_def split: list.splits)

lemma moderateRule_tape:
  "moderateRule rs = Some (p, rs') \<Longrightarrow> set rs' \<subseteq> set rs"
  by (auto simp: moderateRule_def Let_def split: list.splits)

lemma easyRule_tape:
  "easyRule rs = Some (p, rs') \<Longrightarrow> set rs' \<subseteq> set rs"
  by (auto simp: easyRule_def Let_def split: list.splits)

lemma drawOperands_tape:
  "drawOperands c rs = Some (p, rs') \<Longrightarrow> set rs' \<subseteq> set rs"
  unfolding drawOperands_def
  by (auto split: if_splits dest: fallbackRule_tape scoreOverrideRule_tape hardRule_tape moderateRule_tape easyRule_tape)

lemma noTimesOne_tape:
  "noTimesOne c n1 n2 rs = Some (p', rs') \<Longrightarrow> set rs' \<subseteq> set rs"
  by (auto simp: noTimesOne_def split: list.splits if_splits option.splits)

text \<open>The ranges of the branches: every operand drawn is at least 1.\<close>

lemma scoreOverrideRule_range:
  assumes "scoreOverrideRule rs = Some ((n1, n2), rs')" and "list_all unitInterval rs"
  shows "(n1 \<in> {6, 7, 8, 9} \<and> 6 \<le> n2 \<and> n2 \<le> 12) \<or> (n2 \<in> {6, 7, 8, 9} \<and> 6 \<le> n1 \<and> n1 \<le> 12)"
proof -
  from assms(1) obtain r1 r2 r3 where rs: "rs = r1 # r2 # r3 # rs'"
    by (auto simp: scoreOverrideRule_def Let_def split: list.splits)
  with assms(2) have u: "unitInterval r1" "unitInterval r2" by simp_all
  from pickFrom4 [OF u(1)] have a: "pickFrom [6, 7, 8, 9] r1 \<in> {6, 7, 8, 9}" .
  from floorRandom_bounds [OF u(2), of 7] have b: "6 \<le> floorRandom r2 7 + 6 \<and> floorRandom r2 7 + 6 \<le> 12" by simp
  from assms(1) rs a b show ?thesis
    by (auto simp: scoreOverrideRule_def Let_def split: if_splits)
qed

lemma fallbackRule_positive:
  assumes "fallbackRule c rs = Some ((n1, n2), rs')"
    and "list_all unitInterval rs"
    and "0 \<le> difficultyLevel c" and "0 \<le> correctStreak c"
  shows "1 \<le> n1 \<and> 1 \<le> n2"
proof -
  define eff where "eff = difficultyLevel c + correctStreak c div 3 + (if robuxScore c \<ge> 500 then 2 else 0)"
  define base :: int where "base = (if difficulty c = Easy then 4 else if difficulty c = Moderate then 7 else 10)"
  from assms(3,4) have eff: "0 \<le> eff" by (simp add: eff_def pos_imp_zdiv_nonneg_iff)
  have base: "4 \<le> base" by (simp add: base_def)
  from assms(1) obtain r1 r2 rs1 where rs: "rs = r1 # r2 # rs1"
    by (auto simp: fallbackRule_def Let_def split: list.splits)
  with assms(2) have u: "unitInterval r1" "unitInterval r2" "list_all unitInterval rs1" by simp_all
  from eff base have m: "0 < base + eff" "0 < base + max 0 (eff - 2)" by simp_all
  note b1 = floorRandom_bounds [OF u(1) m(1)] and b2 = floorRandom_bounds [OF u(2) m(2)]
  show ?thesis
  proof (cases "floorRandom r1 (base + eff) + 1 = 1 \<and> floorRandom r2 (base + max 0 (eff - 2)) + 1 = 1")
    case True
    with assms(1) rs obtain r3 where r3: "rs1 = r3 # rs'" "n1 = 1" "n2 = floorRandom r3 9 + 2"
      by (auto simp: fallbackRule_def Let_def eff_def base_def split: list.splits if_splits)
    with u(3) have "unitInterval r3" by simp
    from floorRandom_bounds [OF this, of 9] r3 show ?thesis by simp
  next
    case False
    with assms(1) rs have "n1 = floorRandom r1 (base + eff) + 1" "n2 = floorRandom r2 (base + max 0 (eff - 2)) + 1"
      by (auto simp: fallbackRule_def Let_def eff_def base_def split: list.splits if_splits)
    with b1 b2 show ?thesis by simp
  qed
qed

lemma hardRule_positive:
  assumes "hardRule rs = Some ((n1, n2), rs')" and "list_all unitInterval rs"
  shows "1 \<le> n1 \<and> 1 \<le> n2"
proof -
  from assms(1) obtain r1 r2 where rs: "rs = r1 # r2 # rs'"
    by (auto simp: hardRule_def split: list.splits)
  with assms(2) have u: "unitInterval r1" "unitInterval r2" by simp_all
  from pickFrom4 [OF u(1), of 6 7 8 9] pickFrom4 [OF u(2), of 6 7 8 9] assms(1) rs
  show ?thesis by (auto simp: hardRule_def)
qed

lemma moderateRule_positive:
  assumes "moderateRule rs = Some ((n1, n2), rs')" and "list_all unitInterval rs"
  shows "1 \<le> n1 \<and> 1 \<le> n2"
proof -
  from assms(1) obtain r1 r2 r3 where rs: "rs = r1 # r2 # r3 # rs'"
    by (auto simp: moderateRule_def Let_def split: list.splits)
  with assms(2) have u: "unitInterval r1" "unitInterval r2" by simp_all
  from pickFrom4 [OF u(1), of 4 5 6 7] floorRandom_bounds [OF u(2), of 10] assms(1) rs
  show ?thesis by (auto simp: moderateRule_def Let_def split: if_splits)
qed

lemma easyRule_positive:
  assumes "easyRule rs = Some ((n1, n2), rs')" and "list_all unitInterval rs"
  shows "1 \<le> n1 \<and> 1 \<le> n2"
proof -
  from assms(1) obtain r1 r2 r3 where rs: "rs = r1 # r2 # r3 # rs'"
    by (auto simp: easyRule_def Let_def split: list.splits)
  with assms(2) have u: "unitInterval r2" by simp_all
  from floorRandom_bounds [OF u, of 10] assms(1) rs
  show ?thesis by (auto simp: easyRule_def Let_def split: if_splits)
qed

lemma scoreOverrideRule_positive:
  assumes "scoreOverrideRule rs = Some ((n1, n2), rs')" and "list_all unitInterval rs"
  shows "1 \<le> n1 \<and> 1 \<le> n2"
  using scoreOverrideRule_range [OF assms] by auto

lemma drawOperands_positive:
  assumes "drawOperands c rs = Some ((n1, n2), rs')"
    and "list_all unitInterval rs"
    and "0 \<le> difficultyLevel c" and "0 \<le> correctStreak c"
  shows "1 \<le> n1 \<and> 1 \<le> n2"
  using assms unfolding drawOperands_def
  by (auto split: if_splits
           dest: scoreOverrideRule_positive hardRule_positive moderateRule_positive
                 easyRule_positive fallbackRule_positive)

text \<open>
  The block of \<open>index.tsx\<close> replaces an operand 1 by 2, 3 or 4 when the score is at least
  100, and changes nothing else.
\<close>

lemma replacement_range:
  assumes "unitInterval r"
  shows "floorRandom r 3 + 2 \<in> {2, 3, 4}"
  using floorRandom_bounds [OF assms, of 3] by auto

lemma noTimesOne_cases:
  assumes "noTimesOne c n1 n2 rs = Some ((m1, m2), rs')" and "list_all unitInterval rs"
  shows "(robuxScore c < 100 \<and> m1 = n1 \<and> m2 = n2) \<or>
         (100 \<le> robuxScore c \<and> (if n1 = 1 then m1 \<in> {2, 3, 4} else m1 = n1)
            \<and> (if n2 = 1 then m2 \<in> {2, 3, 4} else m2 = n2))"
proof (cases "100 \<le> robuxScore c")
  case False
  with assms(1) show ?thesis by (simp add: noTimesOne_def)
next
  case True
  obtain k1 rs1 where first:
    "(if n1 = 1 then (case rs of r # rs' \<Rightarrow> Some (floorRandom r 3 + 2, rs') | [] \<Rightarrow> None)
      else Some (n1, rs)) = Some (k1, rs1)"
    using assms(1) True by (auto simp: noTimesOne_def split: option.splits)
  have k1: "(if n1 = 1 then k1 \<in> {2, 3, 4} else k1 = n1) \<and> list_all unitInterval rs1"
  proof (cases "n1 = 1")
    case True
    with first obtain r where "rs = r # rs1" "k1 = floorRandom r 3 + 2"
      by (auto split: list.splits)
    with assms(2) True replacement_range [of r] show ?thesis by simp
  next
    case False
    with first assms(2) show ?thesis by simp
  qed
  from assms(1) True first have second:
    "(if n2 = 1 then (case rs1 of r # rs' \<Rightarrow> Some ((k1, floorRandom r 3 + 2), rs') | [] \<Rightarrow> None)
      else Some ((k1, n2), rs1)) = Some ((m1, m2), rs')"
    by (simp add: noTimesOne_def)
  have "m1 = k1 \<and> (if n2 = 1 then m2 \<in> {2, 3, 4} else m2 = n2)"
  proof (cases "n2 = 1")
    case True
    with second obtain r where "rs1 = r # rs'" "m1 = k1" "m2 = floorRandom r 3 + 2"
      by (auto split: list.splits)
    with k1 True replacement_range [of r] show ?thesis by simp
  next
    case False
    with second show ?thesis by simp
  qed
  with k1 True show ?thesis by (auto split: if_splits)
qed

lemma noTimesOne_positive:
  assumes "noTimesOne c n1 n2 rs = Some ((m1, m2), rs')"
    and "list_all unitInterval rs" and "1 \<le> n1" and "1 \<le> n2"
  shows "1 \<le> m1 \<and> 1 \<le> m2"
  using noTimesOne_cases [OF assms(1,2)] assms(3,4) by (auto split: if_splits)

lemma noTimesOne_not_one:
  assumes "noTimesOne c n1 n2 rs = Some ((m1, m2), rs')"
    and "list_all unitInterval rs" and "100 \<le> robuxScore c"
  shows "m1 \<noteq> 1 \<and> m2 \<noteq> 1"
  using noTimesOne_cases [OF assms(1,2)] assms(3) by (auto split: if_splits)

lemma noTimesOne_keeps:
  assumes "noTimesOne c n1 n2 rs = Some ((m1, m2), rs')"
    and "n1 \<noteq> 1" and "n2 \<noteq> 1"
  shows "m1 = n1 \<and> m2 = n2"
  using assms by (auto simp: noTimesOne_def split: if_splits)

text \<open>The body of the loop, in both source files.\<close>

lemma loopBody_tape:
  assumes "loopBody src c rs = Some (p, rs')"
  shows "set rs' \<subseteq> set rs"
proof -
  from assms obtain n1 n2 rs1 where d: "drawOperands c rs = Some ((n1, n2), rs1)"
    by (auto simp: loopBody_def split: option.splits)
  from drawOperands_tape [OF d] have 1: "set rs1 \<subseteq> set rs" .
  show ?thesis
  proof (cases "src = Index_tsx")
    case True
    with d assms have "noTimesOne c n1 n2 rs1 = Some (p, rs')" by (simp add: loopBody_def)
    from noTimesOne_tape [OF this] 1 show ?thesis by blast
  next
    case False
    with d 1 assms show ?thesis by (simp add: loopBody_def)
  qed
qed

lemma loopBody_positive:
  assumes "loopBody src c rs = Some ((m1, m2), rs')"
    and "list_all unitInterval rs"
    and "0 \<le> difficultyLevel c" and "0 \<le> correctStreak c"
  shows "1 \<le> m1 \<and> 1 \<le> m2"
proof -
  from assms(1) obtain n1 n2 rs1 where d: "drawOperands c rs = Some ((n1, n2), rs1)"
    by (auto simp: loopBody_def split: option.splits)
  from drawOperands_positive [OF d assms(2-4)] have p: "1 \<le> n1" "1 \<le> n2" by simp_all
  from drawOperands_tape [OF d] assms(2) have t: "list_all unitInterval rs1"
    by (auto simp: list_all_iff)
  show ?thesis
  proof (cases "src = Index_tsx")
    case True
    with d assms(1) have "noTimesOne c n1 n2 rs1 = Some ((m1, m2), rs')" by (simp add: loopBody_def)
    from noTimesOne_positive [OF this t p] show ?thesis .
  next
    case False
    with d p assms(1) show ?thesis by (simp add: loopBody_def)
  qed
qed

lemma loopBody_not_one:
  assumes "loopBody Index_tsx c rs = Some ((m1, m2), rs')"
    and "list_all unitInterval rs" and "100 \<le> robuxScore c"
  shows "m1 \<noteq> 1 \<and> m2 \<noteq> 1"
proof -
  from assms(1) obtain n1 n2 rs1 where d: "drawOperands c rs = Some ((n1, n2), rs1)"
    by (auto simp: loopBody_def split: option.splits)
  from drawOperands_tape [OF d] assms(2) have t: "list_all unitInterval rs1"
    by (auto simp: list_all_iff)
  from d assms(1) have "noTimesOne c n1 n2 rs1 = Some ((m1, m2), rs')" by (simp add: loopBody_def)
  from noTimesOne_not_one [OF this t assms(3)] show ?thesis .
qed

lemma loopBody_scoreOverride:
  assumes "loopBody src c rs = Some ((m1, m2), rs')"
    and "list_all unitInterval rs" and "800 \<le> robuxScore c"
  shows "(m1 \<in> {6, 7, 8, 9} \<and> 6 \<le> m2 \<and> m2 \<le> 12) \<or> (m2 \<in> {6, 7, 8, 9} \<and> 6 \<le> m1 \<and> m1 \<le> 12)"
proof -
  from assms(1) obtain n1 n2 rs1 where d: "drawOperands c rs = Some ((n1, n2), rs1)"
    by (auto simp: loopBody_def split: option.splits)
  with assms(3) have s: "scoreOverrideRule rs = Some ((n1, n2), rs1)" by (simp add: drawOperands_def)
  note r = scoreOverrideRule_range [OF s assms(2)]
  then have ne: "n1 \<noteq> 1" "n2 \<noteq> 1" by auto
  show ?thesis
  proof (cases "src = Index_tsx")
    case True
    with d assms(1) have "noTimesOne c n1 n2 rs1 = Some ((m1, m2), rs')" by (simp add: loopBody_def)
    from noTimesOne_keeps [OF this ne] r show ?thesis by simp
  next
    case False
    with d r assms(1) show ?thesis by (simp add: loopBody_def)
  qed
qed

text \<open>What the loop returns is what its last pass drew, and that pass was not a repetition.\<close>

lemma pickOperands_last_pass:
  assumes "pickOperands src c rs = Some ((n1, n2), rs')"
  shows "\<exists>rs0. set rs0 \<subseteq> set rs \<and> loopBody src c rs0 = Some ((n1, n2), rs') \<and> \<not> isRepeated c n1 n2"
  using assms
proof (induction src c rs rule: pickOperands.induct)
  case (1 src c rs)
  from "1.prems" obtain m1 m2 rs1 where b: "loopBody src c rs = Some ((m1, m2), rs1)"
    by (subst (asm) pickOperands.simps) (auto split: option.splits)
  show ?case
  proof (cases "isRepeated c m1 m2")
    case True
    with b "1.prems" have "pickOperands src c rs1 = Some ((n1, n2), rs')"
      by (subst (asm) pickOperands.simps) simp
    from "1.IH" [OF b refl refl True this] obtain rs0
      where "set rs0 \<subseteq> set rs1" "loopBody src c rs0 = Some ((n1, n2), rs')" "\<not> isRepeated c n1 n2"
      by blast
    with loopBody_tape [OF b] show ?thesis by blast
  next
    case False
    with b "1.prems" have "m1 = n1" "m2 = n2" "rs1 = rs'"
      by (subst (asm) pickOperands.simps, simp)+
    with b False show ?thesis by blast
  qed
qed

section \<open>The options\<close>

text \<open>The operands of a question are at least 1, so its answer is too.\<close>

lemma pickOperands_positive:
  assumes "pickOperands src c rs = Some ((n1, n2), rs')"
    and "list_all unitInterval rs"
    and "0 \<le> difficultyLevel c" and "0 \<le> correctStreak c"
  shows "1 \<le> n1 \<and> 1 \<le> n2"
proof -
  from pickOperands_last_pass [OF assms(1)] obtain rs0
    where "set rs0 \<subseteq> set rs" and b: "loopBody src c rs0 = Some ((n1, n2), rs')" by blast
  with assms(2) have "list_all unitInterval rs0" by (auto simp: list_all_iff)
  from loopBody_positive [OF b this assms(3,4)] show ?thesis .
qed

text \<open>A wrong answer that is added to the options is positive and is not the answer.\<close>

lemma wrongAnswerDraw_wrong:
  assumes "wrongAnswerDraw n1 n2 ans sz rs = Some (w, rs')" and "1 \<le> ans" and "0 \<le> sz"
  shows "0 < w \<and> w \<noteq> ans"
  using assms
  by (auto simp: wrongAnswerDraw_def Let_def split: list.splits if_splits)

text \<open>
  The loop keeps the options it has, keeps them distinct and positive, and ends with
  exactly four.
\<close>

lemma fillOptions_invariant:
  assumes "fillOptions n1 n2 ans opts rs = Some res"
    and "1 \<le> ans" and "ans \<in> set opts" and "distinct opts"
    and "\<forall>x\<in>set opts. 0 < x" and "length opts \<le> 4"
  shows "ans \<in> set res \<and> distinct res \<and> (\<forall>x\<in>set res. 0 < x) \<and> length res = 4
         \<and> take (length opts) res = opts"
  using assms
proof (induction n1 n2 ans opts rs rule: fillOptions.induct)
  case (1 n1 n2 ans opts rs)
  show ?case
  proof (cases "length opts < 4")
    case False
    with "1.prems" show ?thesis by (subst (asm) fillOptions.simps) auto
  next
    case True
    with "1.prems"(1) obtain w rs' where
      w: "wrongAnswerDraw n1 n2 ans (int (length opts)) rs = Some (w, rs')"
      and rec: "fillOptions n1 n2 ans (setAdd opts w) rs' = Some res"
      by (subst (asm) fillOptions.simps) (auto split: option.splits)
    from wrongAnswerDraw_wrong [OF w "1.prems"(2)] have w': "0 < w" "w \<noteq> ans" by simp_all
    have a: "ans \<in> set (setAdd opts w)" using "1.prems"(3) by (simp add: setAdd_def)
    have b: "distinct (setAdd opts w)" using "1.prems"(4) by (simp add: setAdd_def)
    have c: "\<forall>x\<in>set (setAdd opts w). 0 < x" using "1.prems"(5) w' by (simp add: setAdd_def)
    have d: "length (setAdd opts w) \<le> 4" using True by (simp add: setAdd_def)
    from "1.IH" [OF True w refl rec "1.prems"(2) a b c d]
    have r: "ans \<in> set res \<and> distinct res \<and> (\<forall>x\<in>set res. 0 < x) \<and> length res = 4"
      and t: "take (length (setAdd opts w)) res = setAdd opts w" by simp_all
    have "take (length opts) res = opts"
    proof (cases "w \<in> set opts")
      case True
      with t show ?thesis by (simp add: setAdd_def)
    next
      case False
      with t have "take (Suc (length opts)) res = opts @ [w]" by (simp add: setAdd_def)
      then have "take (length opts) (take (Suc (length opts)) res) = take (length opts) (opts @ [w])"
        by simp
      then show ?thesis by simp
    qed
    with r show ?thesis by simp
  qed
qed

section \<open>Generation can finish\<close>

text \<open>
  Every branch of the cascade can draw two different pairs of operands that are both at
  least 2, on tapes of the unit interval.
\<close>

lemma drawOperands_two_pairs:
  assumes "0 \<le> difficultyLevel c" and "0 \<le> correctStreak c"
  shows "\<exists>ta tb a a' b. list_all unitInterval ta \<and> list_all unitInterval tb
           \<and> (\<forall>rest. drawOperands c (ta @ rest) = Some ((a, b), rest))
           \<and> (\<forall>rest. drawOperands c (tb @ rest) = Some ((a', b), rest))
           \<and> a \<noteq> a' \<and> 2 \<le> a \<and> 2 \<le> a' \<and> 2 \<le> b"
proof -
  consider (override) "800 \<le> robuxScore c"
    | (hard) "robuxScore c < 800" "difficulty c = Hard"
    | (moderate) "robuxScore c < 800" "difficulty c = Moderate"
    | (easy) "robuxScore c < 800" "difficulty c = Easy" "correctAnswersCount c < 30"
    | (fallback) "robuxScore c < 800" "difficulty c = Easy" "30 \<le> correctAnswersCount c"
    by (cases "difficulty c") force+
  then show ?thesis
  proof cases
    case override
    have "list_all unitInterval [0, 0, 3/4]" "list_all unitInterval [1/4, 0, 3/4]"
      by (simp_all add: unitInterval_def)
    moreover have "\<forall>rest. drawOperands c ([0, 0, 3/4] @ rest) = Some ((6, 6), rest)"
      "\<forall>rest. drawOperands c ([1/4, 0, 3/4] @ rest) = Some ((7, 6), rest)"
      using override
      by (simp_all add: drawOperands_def scoreOverrideRule_def pickFrom_def floorRandom_def)
    ultimately show ?thesis by (intro exI [of _ "[0, 0, 3/4]"] exI [of _ "[1/4, 0, 3/4]"] exI [of _ 6] exI [of _ 7] exI [of _ 6]) simp
  next
    case hard
    have "list_all unitInterval [0, 0]" "list_all unitInterval [1/4, 0]"
      by (simp_all add: unitInterval_def)
    moreover have "\<forall>rest. drawOperands c ([0, 0] @ rest) = Some ((6, 6), rest)"
      "\<forall>rest. drawOperands c ([1/4, 0] @ rest) = Some ((7, 6), rest)"
      using hard
      by (simp_all add: drawOperands_def hardRule_def pickFrom_def floorRandom_def)
    ultimately show ?thesis by (intro exI [of _ "[0, 0]"] exI [of _ "[1/4, 0]"] exI [of _ 6] exI [of _ 7] exI [of _ 6]) simp
  next
    case moderate
    have "list_all unitInterval [0, 3/10, 3/4]" "list_all unitInterval [1/4, 3/10, 3/4]"
      by (simp_all add: unitInterval_def)
    moreover have "\<forall>rest. drawOperands c ([0, 3/10, 3/4] @ rest) = Some ((4, 4), rest)"
      "\<forall>rest. drawOperands c ([1/4, 3/10, 3/4] @ rest) = Some ((5, 4), rest)"
      using moderate
      by (simp_all add: drawOperands_def moderateRule_def pickFrom_def floorRandom_def)
    ultimately show ?thesis by (intro exI [of _ "[0, 3/10, 3/4]"] exI [of _ "[1/4, 3/10, 3/4]"] exI [of _ 4] exI [of _ 5] exI [of _ 4]) simp
  next
    case easy
    have "list_all unitInterval [1/4, 3/10, 3/4]" "list_all unitInterval [3/4, 3/10, 3/4]"
      by (simp_all add: unitInterval_def)
    moreover have "\<forall>rest. drawOperands c ([1/4, 3/10, 3/4] @ rest) = Some ((2, 4), rest)"
      "\<forall>rest. drawOperands c ([3/4, 3/10, 3/4] @ rest) = Some ((3, 4), rest)"
      using easy
      by (simp_all add: drawOperands_def easyRule_def floorRandom_def)
    ultimately show ?thesis by (intro exI [of _ "[1/4, 3/10, 3/4]"] exI [of _ "[3/4, 3/10, 3/4]"] exI [of _ 2] exI [of _ 3] exI [of _ 4]) simp
  next
    case fallback
    define eff where
      "eff = difficultyLevel c + correctStreak c div 3 + (if robuxScore c \<ge> 500 then 2 else 0)"
    define m1 where "m1 = 4 + eff"
    define m2 where "m2 = 4 + max 0 (eff - 2)"
    define ra where "ra = 1 / real_of_int m1"
    define rb where "rb = 2 / real_of_int m1"
    define r2 where "r2 = 1 / real_of_int m2"
    from assms have eff: "0 \<le> eff" by (simp add: eff_def pos_imp_zdiv_nonneg_iff)
    then have m: "4 \<le> m1" "4 \<le> m2" by (simp_all add: m1_def m2_def)
    from m have u: "list_all unitInterval [ra, r2]" "list_all unitInterval [rb, r2]"
      by (simp_all add: unitInterval_def ra_def rb_def r2_def)
    from m have fl: "floorRandom ra m1 = 1" "floorRandom rb m1 = 2" "floorRandom r2 m2 = 1"
      by (simp_all add: floorRandom_def ra_def rb_def r2_def)
    have fb: "fallbackRule c (r # r' # rest) =
                (if floorRandom r m1 + 1 = 1 \<and> floorRandom r' m2 + 1 = 1
                 then (case rest of
                         r3 # rs'' \<Rightarrow> Some ((floorRandom r m1 + 1, floorRandom r3 9 + 2), rs'')
                       | [] \<Rightarrow> None)
                 else Some ((floorRandom r m1 + 1, floorRandom r' m2 + 1), rest))" for r r' rest
      using fallback
      by (cases rest; cases "500 \<le> robuxScore c")
         (simp_all add: fallbackRule_def Let_def eff_def m1_def m2_def)
    have "\<forall>rest. drawOperands c ([ra, r2] @ rest) = Some ((2, 2), rest)"
      "\<forall>rest. drawOperands c ([rb, r2] @ rest) = Some ((3, 2), rest)"
      using fallback by (simp_all add: drawOperands_def fb fl)
    with u show ?thesis
      by (intro exI [of _ "[ra, r2]"] exI [of _ "[rb, r2]"] exI [of _ 2] exI [of _ 3] exI [of _ 2]) simp
  qed
qed

text \<open>
  Operands that are at least 2 pass the block of \<open>index.tsx\<close> unchanged, with no draw.
\<close>

lemma loopBody_at_least_two:
  assumes "drawOperands c rs = Some ((a, b), rest)" and "2 \<le> a" and "2 \<le> b"
  shows "loopBody src c rs = Some ((a, b), rest)"
  using assms by (simp add: loopBody_def noTimesOne_def)

text \<open>Two pairs with the same second operand and different first operands cannot both
  repeat the last question.\<close>

lemma isRepeated_one_of_two:
  assumes "a \<noteq> a'" and "isRepeated c a b"
  shows "\<not> isRepeated c a' b"
  using assms by (auto simp: isRepeated_def split: option.splits)

lemma pickOperands_can_return:
  assumes "0 \<le> difficultyLevel c" and "0 \<le> correctStreak c"
  shows "\<exists>t a b. list_all unitInterval t \<and> 2 \<le> a \<and> 2 \<le> b
           \<and> (\<forall>rest. pickOperands src c (t @ rest) = Some ((a, b), rest))"
proof -
  from drawOperands_two_pairs [OF assms] obtain ta tb a a' b where
    u: "list_all unitInterval ta" "list_all unitInterval tb"
    and da: "\<And>rest. drawOperands c (ta @ rest) = Some ((a, b), rest)"
    and db: "\<And>rest. drawOperands c (tb @ rest) = Some ((a', b), rest)"
    and ne: "a \<noteq> a'" and ge: "2 \<le> a" "2 \<le> a'" "2 \<le> b"
    by blast
  show ?thesis
  proof (cases "isRepeated c a b")
    case False
    have "pickOperands src c (ta @ rest) = Some ((a, b), rest)" for rest
      using loopBody_at_least_two [OF da ge(1) ge(3), of src rest] False
      by (subst pickOperands.simps) simp
    with u ge show ?thesis by blast
  next
    case True
    from isRepeated_one_of_two [OF ne True] have nr: "\<not> isRepeated c a' b" .
    have "pickOperands src c (tb @ rest) = Some ((a', b), rest)" for rest
      using loopBody_at_least_two [OF db ge(2) ge(3), of src rest] nr
      by (subst pickOperands.simps) simp
    with u ge show ?thesis by blast
  qed
qed

text \<open>
  The loop of the options ends after three passes when the offsets drawn are 1, 2 and 3
  and the multiplier is \<open>num1\<close>: the wrong answers are then \<open>answer + num1\<close>,
  \<open>answer + 2 * num1\<close> and \<open>answer + 3 * num1\<close>.
\<close>

lemma wrongAnswerDraw_offset:
  assumes "0 < n1" and "0 < ans"
  shows "wrongAnswerDraw n1 n2 ans sz (3 / 5 # 3 / 4 # rest) = Some (ans + n1, rest)"
    and "wrongAnswerDraw n1 n2 ans sz (7 / 10 # 3 / 4 # rest) = Some (ans + 2 * n1, rest)"
    and "wrongAnswerDraw n1 n2 ans sz (4 / 5 # 3 / 4 # rest) = Some (ans + 3 * n1, rest)"
  using assms by (simp_all add: wrongAnswerDraw_def floorRandom_def Let_def)

lemma fillOptions_can_return:
  assumes "0 < n1" and "0 < ans"
  shows "fillOptions n1 n2 ans [ans] [3 / 5, 3 / 4, 7 / 10, 3 / 4, 4 / 5, 3 / 4]
           = Some [ans, ans + n1, ans + 2 * n1, ans + 3 * n1]"
  using assms
  by (simp add: fillOptions.simps [of n1 n2 ans] wrongAnswerDraw_offset [OF assms] setAdd_def)

text \<open>
  So the function can return from every state whose level and streak are not negative:
  there are draws of the unit interval on which both of its loops end.
\<close>

lemma generateQuestion_can_return:
  assumes "0 \<le> difficultyLevel c" and "0 \<le> correctStreak c"
  shows "\<exists>rs q. list_all unitInterval rs \<and> generateQuestion src sortRandomly c rs = Some q"
proof -
  from pickOperands_can_return [OF assms, of src] obtain t a b where
    u: "list_all unitInterval t" and ge: "2 \<le> a" "2 \<le> b"
    and p: "\<And>rest. pickOperands src c (t @ rest) = Some ((a, b), rest)"
    by blast
  let ?o = "[3 / 5, 3 / 4, 7 / 10, 3 / 4, 4 / 5, 3 / 4] :: real list"
  from ge have pos: "0 < a" "0 < a * b" by simp_all
  from u have "list_all unitInterval (t @ ?o)" by (simp add: unitInterval_def)
  moreover have "generateQuestion src sortRandomly c (t @ ?o)
      = Some \<lparr>num1 = a, num2 = b, answer = a * b,
              options = sortRandomly [a * b, a * b + a, a * b + 2 * a, a * b + 3 * a]\<rparr>"
    by (simp add: generateQuestion_def p fillOptions_can_return [OF pos] Let_def)
  ultimately show ?thesis by blast
qed

section \<open>Well-formed questions\<close>

text \<open>
  The operands are at least 1, so the answer is; the options start from the answer and
  the loop adds wrong answers until there are four; the sort permutes them.
\<close>

lemma generateQuestion_wellFormed:
  assumes "generateQuestion src sortRandomly c rs = Some q"
    and "list_all unitInterval rs"
    and "0 \<le> difficultyLevel c" and "0 \<le> correctStreak c"
    and "\<And>xs. mset (sortRandomly xs) = mset xs"
  shows "wellFormed q"
proof -
  from assms(1) obtain n1 n2 rs' opts where
    p: "pickOperands src c rs = Some ((n1, n2), rs')"
    and f: "fillOptions n1 n2 (n1 * n2) [n1 * n2] rs' = Some opts"
    and q: "q = \<lparr>num1 = n1, num2 = n2, answer = n1 * n2, options = sortRandomly opts\<rparr>"
    by (auto simp: generateQuestion_def Let_def split: option.splits)
  from pickOperands_positive [OF p assms(2-4)] have "1 \<le> n1" "1 \<le> n2" by simp_all
  then have "1 * 1 \<le> n1 * n2" by (intro mult_mono) simp_all
  then have pos: "1 \<le> n1 * n2" by simp
  from fillOptions_invariant [OF f pos] pos
  have o: "n1 * n2 \<in> set opts" "distinct opts" "\<forall>x\<in>set opts. 0 < x" "length opts = 4"
    by simp_all
  have s: "set (sortRandomly opts) = set opts" by (rule mset_eq_setD) (rule assms(5))
  have l: "length (sortRandomly opts) = length opts" by (rule mset_eq_length) (rule assms(5))
  have d: "distinct (sortRandomly opts) = distinct opts"
    by (rule mset_eq_imp_distinct_iff) (rule assms(5))
  from o s l d q show ?thesis by (simp add: wellFormed_def list_all_iff)
qed

text \<open>
  Claim C1. Every Question that \<open>generateQuestion\<close> produces is well-formed: its answer is
  \<open>num1 * num2\<close>, the answer is one of its options, and the options are exactly 4, pairwise
  distinct and strictly positive. This holds in both source files, for every tape of
  \<open>Math.random()\<close> values, every outcome of the random sort, and every state whose
  \<open>difficultyLevel\<close> and \<open>correctStreak\<close> are not negative. They never are in a session,
  where every question on screen is therefore well-formed: see \<open>run_invariant\<close> and
  \<open>run_wellFormed\<close>.
\<close>

theorem generateQuestion_well_formed:
  assumes "generateQuestion src sortRandomly c rs = Some q"
    and "list_all unitInterval rs"
    and "0 \<le> difficultyLevel c" and "0 \<le> correctStreak c"
    and "\<And>xs. mset (sortRandomly xs) = mset xs"
  shows "answer q = num1 q * num2 q \<and> answer q \<in> set (options q) \<and> length (options q) = 4
         \<and> distinct (options q) \<and> (\<forall>x\<in>set (options q). 0 < x)"
proof -
  from generateQuestion_wellFormed [OF assms] have "wellFormed q" .
  then show ?thesis unfolding wellFormed_def list_all_iff by blast
qed

theorem generateQuestion_well_formed_witness:
  "generateQuestion Index_tsx rev (screen (mount Easy))
     [1/4, 6/10, 3/4, 9/10, 3/4, 2/10, 1/10, 2/10, 1/2, 1/2, 0, 9/10, 1/10]
     = Some \<lparr>num1 = 2, num2 = 7, answer = 14, options = [20, 8, 22, 14]\<rparr>
   \<and> answer \<lparr>num1 = 2, num2 = 7, answer = 14, options = [20, 8, 22, 14]\<rparr> = 2 * 7
   \<and> length (options \<lparr>num1 = 2, num2 = 7, answer = 14, options = [20, 8, 22, 14]\<rparr>) = 4
   \<and> distinct (options \<lparr>num1 = 2, num2 = 7, answer = 14, options = [20, 8, 22, 14]\<rparr>)"
proof -
  let ?tape = "[1/4, 6/10, 3/4, 9/10, 3/4, 2/10, 1/10, 2/10, 1/2, 1/2, 0, 9/10, 1/10] :: real list"
  have g: "generateQuestion Index_tsx rev (screen (mount Easy)) ?tape
           = Some \<lparr>num1 = 2, num2 = 7, answer = 14, options = [20, 8, 22, 14]\<rparr>"
    by (simp add: eval_defs)
  have t: "list_all unitInterval ?tape" by (simp add: unitInterval_def)
  have l: "0 \<le> difficultyLevel (screen (mount Easy))" "0 \<le> correctStreak (screen (mount Easy))"
    by (simp_all add: eval_defs)
  from generateQuestion_well_formed [OF g t l mset_rev] g show ?thesis by simp
qed

section \<open>Invariants of a session\<close>

text \<open>The invariant holds when the component mounts, and every event keeps it.\<close>

lemma nonNegative_correctUpdates: "nonNegative st \<Longrightarrow> nonNegative (correctUpdates st)"
  by (simp add: nonNegative_def correctUpdates_def)

lemma nonNegative_wrongUpdates: "nonNegative st \<Longrightarrow> nonNegative (wrongUpdates x st)"
  by (simp add: nonNegative_def wrongUpdates_def Let_def)

lemma nonNegative_runEffects: "nonNegative st \<Longrightarrow> nonNegative (runEffects prev st)"
  by (simp add: nonNegative_def runEffects_def wrongStreakEffect_def)

lemma nonNegative_setQuestion: "nonNegative (setQuestion q st) = nonNegative st"
  by (simp add: nonNegative_def setQuestion_def)

lemma sessionInvariant_mount: "sessionInvariant (mount d)"
  by (cases d) (simp_all add: sessionInvariant_def mount_def initialState_def difficultyEffect_def nonNegative_def)

lemma handlers_frame:
  "lastQuestion (correctUpdates st) = lastQuestion st"
  "lastQuestion (wrongUpdates x st) = lastQuestion st"
  "currentQuestion (correctUpdates st) = currentQuestion st"
  "currentQuestion (wrongUpdates x st) = currentQuestion st"
  "showIntroMessage (correctUpdates st) = showIntroMessage st"
  "showIntroMessage (wrongUpdates x st) = showIntroMessage st"
  "isAnswered (correctUpdates st)"
  "isAnswered (wrongUpdates x st)"
  by (simp_all add: correctUpdates_def wrongUpdates_def Let_def)

lemma runEffects_frame:
  "lastQuestion (runEffects prev st) = lastQuestion st"
  "currentQuestion (runEffects prev st) = currentQuestion st"
  "showIntroMessage (runEffects prev st) = showIntroMessage st"
  "isAnswered (runEffects prev st) = isAnswered st"
  "robuxScore (runEffects prev st) = robuxScore st"
  "correctStreak (runEffects prev st) = correctStreak st"
  "wrongStreak (runEffects prev st) = wrongStreak st"
  "correctAnswersCount (runEffects prev st) = correctAnswersCount st"
  "typedAnswer (runEffects prev st) = typedAnswer st"
  "feedback (runEffects prev st) = feedback st"
  by (simp_all add: runEffects_def wrongStreakEffect_def)

lemma sessionInvariant_handleAnswer:
  assumes "sessionInvariant s" and "\<not> showIntroMessage (screen s)"
  shows "sessionInvariant ((handleAnswer s x)\<lparr>screen := runEffects (screen s) (screen (handleAnswer s x))\<rparr>)"
proof (cases "isAnswered (screen s)")
  case True
  then have "handleAnswer s x = s" by (simp add: handleAnswer_def)
  with assms show ?thesis by (simp add: runEffects_def)
next
  case False
  with assms have t: "timers s = []" by (simp add: sessionInvariant_def)
  from False t assms show ?thesis
    by (simp add: sessionInvariant_def handleAnswer_def Let_def handlers_frame runEffects_frame
          nonNegative_runEffects nonNegative_correctUpdates nonNegative_wrongUpdates)
qed

lemma sessionInvariant_handleTypedAnswerSubmit:
  assumes "sessionInvariant s" and "\<not> showIntroMessage (screen s)"
  shows "sessionInvariant ((handleTypedAnswerSubmit s)\<lparr>screen := runEffects (screen s) (screen (handleTypedAnswerSubmit s))\<rparr>)"
proof (cases "isAnswered (screen s) \<or> trim (typedAnswer (screen s)) = []")
  case True
  then have "handleTypedAnswerSubmit s = s" by (simp add: handleTypedAnswerSubmit_def)
  with assms show ?thesis by (simp add: runEffects_def)
next
  case False
  with assms have t: "timers s = []" by (simp add: sessionInvariant_def)
  from False t assms show ?thesis
    by (simp add: sessionInvariant_def handleTypedAnswerSubmit_def Let_def handlers_frame runEffects_frame
          nonNegative_runEffects nonNegative_correctUpdates nonNegative_wrongUpdates)
qed

lemma sessionInvariant_step:
  assumes "sessionInvariant s" and "step src s e = Some s'"
  shows "sessionInvariant s'"
proof (cases e)
  case (StartGame rs sortRandomly)
  show ?thesis
  proof (cases "showIntroMessage (screen s)")
    case True
    with StartGame assms(2) obtain q where
      "s' = s\<lparr>screen := setQuestion q ((screen s)\<lparr>showIntroMessage := False\<rparr>)\<rparr>"
      by (auto split: option.splits)
    with assms(1) True show ?thesis
      by (simp add: sessionInvariant_def setQuestion_def nonNegative_def operandPair_def)
  next
    case False
    with StartGame assms show ?thesis by simp
  qed
next
  case (ClickOption x)
  with assms sessionInvariant_handleAnswer [OF assms(1), of x] show ?thesis
    by (cases "showIntroMessage (screen s)") (auto simp: Let_def)
next
  case (TypeText t)
  with assms show ?thesis
    by (auto simp: sessionInvariant_def nonNegative_def split: if_splits)
next
  case SubmitTyped
  with assms sessionInvariant_handleTypedAnswerSubmit [OF assms(1)] show ?thesis
    by (cases "showIntroMessage (screen s)") (auto simp: Let_def)
next
  case (TimerFires rs sortRandomly)
  show ?thesis
  proof (cases "timers s")
    case Nil
    with TimerFires assms show ?thesis by simp
  next
    case (Cons a ts)
    obtain c clearTyped where a: "a = (c, clearTyped)" by (cases a)
    from Cons assms(1) have ts: "ts = []" by (simp add: sessionInvariant_def)
    from TimerFires Cons a assms(2) obtain q where
      "s' = \<lparr>screen = setQuestion q (if clearTyped then (screen s)\<lparr>typedAnswer := []\<rparr> else screen s),
             timers = ts\<rparr>"
      by (auto split: option.splits)
    with assms(1) ts Cons show ?thesis
      by (simp add: sessionInvariant_def setQuestion_def nonNegative_def operandPair_def)
  qed
qed

lemma sessionInvariant_run:
  assumes "sessionInvariant s" and "run src s evs = Some s'"
  shows "sessionInvariant s'"
  using assms
proof (induction evs arbitrary: s)
  case Nil
  then show ?case by simp
next
  case (Cons e evs)
  from Cons.prems(2) obtain s1 where 1: "step src s e = Some s1" and 2: "run src s1 evs = Some s'"
    by (auto split: option.splits)
  from sessionInvariant_step [OF Cons.prems(1) 1] have "sessionInvariant s1" .
  from Cons.IH [OF this 2] show ?case .
qed

text \<open>Every state that a session reaches from \<open>mount\<close> satisfies the invariant.\<close>

lemma run_invariant:
  "run src (mount d) evs = Some s \<Longrightarrow> sessionInvariant s"
  using sessionInvariant_run [OF sessionInvariant_mount] .

text \<open>
  The timer that an answer sets holds the state as it was before the answer: the
  question generated next reads that score, those streaks and that \<open>correctAnswersCount\<close>.
\<close>

lemma answer_sets_timer:
  assumes "\<not> showIntroMessage (screen s)" and "\<not> isAnswered (screen s)"
  shows "\<exists>s'. step src s (ClickOption x) = Some s' \<and> timers s' = timers s @ [(screen s, False)]"
    and "trim (typedAnswer (screen s)) \<noteq> [] \<Longrightarrow>
         \<exists>s'. step src s SubmitTyped = Some s' \<and> timers s' = timers s @ [(screen s, True)]"
  using assms by (simp_all add: handleAnswer_def handleTypedAnswerSubmit_def Let_def)

section \<open>The score\<close>

text \<open>No event makes the score negative.\<close>

lemma step_score:
  assumes "0 \<le> robuxScore (screen s)" and "step src s e = Some s'"
  shows "0 \<le> robuxScore (screen s')"
proof (cases e)
  case (StartGame rs sortRandomly)
  with assms show ?thesis by (auto simp: setQuestion_def split: if_splits option.splits)
next
  case (ClickOption x)
  with assms show ?thesis
    by (auto simp: handleAnswer_def correctUpdates_def wrongUpdates_def runEffects_frame Let_def
             split: if_splits)
next
  case (TypeText t)
  with assms show ?thesis by (auto split: if_splits)
next
  case SubmitTyped
  with assms show ?thesis
    by (auto simp: handleTypedAnswerSubmit_def correctUpdates_def wrongUpdates_def
                   runEffects_frame Let_def
             split: if_splits)
next
  case (TimerFires rs sortRandomly)
  with assms show ?thesis
    by (auto simp: setQuestion_def split: list.splits option.splits if_splits)
qed

lemma run_score:
  assumes "0 \<le> robuxScore (screen s)" and "run src s evs = Some s'"
  shows "0 \<le> robuxScore (screen s')"
  using assms
proof (induction evs arbitrary: s)
  case Nil
  then show ?case by simp
next
  case (Cons e evs)
  from Cons.prems(2) obtain s1 where 1: "step src s e = Some s1" and 2: "run src s1 evs = Some s'"
    by (auto split: option.splits)
  from Cons.IH [OF step_score [OF Cons.prems(1) 1] 2] show ?case .
qed

text \<open>
  Claim C2. A wrong answer evaluated at score \<open>s\<close> costs 8 if \<open>s \<ge> 930\<close>, else 5 if
  \<open>s \<ge> 800\<close>, else 4 if \<open>s \<ge> 700\<close>, else 2, and the new score is \<open>max 0 (s - penalty)\<close>, for
  a clicked option and for a typed answer alike; so the score is never negative, whatever
  happens in the session. (From 995 a wrong answer gives 987: the witness.)
\<close>

theorem wrong_answer_penalty:
  fixes s :: Session
  defines "sc \<equiv> robuxScore (screen s)"
  defines "penalty \<equiv>
             (if sc \<ge> 930 then 8 else if sc \<ge> 800 then 5 else if sc \<ge> 700 then 4 else 2)"
  shows "(\<not> isAnswered (screen s) \<and> \<not> strictEquals (Num x) (currentQuestion (screen s))
            \<longrightarrow> robuxScore (screen (handleAnswer s x)) = max 0 (sc - penalty))
       \<and> (\<not> isAnswered (screen s) \<and> trim (typedAnswer (screen s)) \<noteq> []
            \<and> \<not> strictEquals (parseInt (typedAnswer (screen s))) (currentQuestion (screen s))
            \<longrightarrow> robuxScore (screen (handleTypedAnswerSubmit s)) = max 0 (sc - penalty))
       \<and> (0 \<le> sc \<and> run src s evs = Some s' \<longrightarrow> 0 \<le> robuxScore (screen s'))"
proof -
  have p: "getPenalty sc = penalty" by (simp add: getPenalty_def penalty_def)
  have 1: "robuxScore (screen (handleAnswer s x)) = max 0 (sc - penalty)"
    if "\<not> isAnswered (screen s)" "\<not> strictEquals (Num x) (currentQuestion (screen s))"
    using that p by (simp add: handleAnswer_def wrongUpdates_def Let_def sc_def)
  have 2: "robuxScore (screen (handleTypedAnswerSubmit s)) = max 0 (sc - penalty)"
    if "\<not> isAnswered (screen s)" "trim (typedAnswer (screen s)) \<noteq> []"
      "\<not> strictEquals (parseInt (typedAnswer (screen s))) (currentQuestion (screen s))"
    using that p by (simp add: handleTypedAnswerSubmit_def wrongUpdates_def Let_def sc_def)
  have 3: "0 \<le> robuxScore (screen s')" if "0 \<le> sc" "run src s evs = Some s'"
    using that run_score [of s src evs s'] by (simp add: sc_def)
  from 1 2 3 show ?thesis by blast
qed

theorem wrong_answer_penalty_witness:
  "\<not> isAnswered (screen (playing 995 0 ''41''))
   \<and> \<not> strictEquals (Num 41) (currentQuestion (screen (playing 995 0 ''41'')))
   \<and> robuxScore (screen (handleAnswer (playing 995 0 ''41'') 41)) = 987
   \<and> trim (typedAnswer (screen (playing 995 0 ''41''))) = ''41''
   \<and> parseInt (typedAnswer (screen (playing 995 0 ''41''))) = Num 41
   \<and> robuxScore (screen (handleTypedAnswerSubmit (playing 995 0 ''41''))) = 987
   \<and> (\<exists>s'. run Index_tsx (playing 995 0 ''41'') [ClickOption 41] = Some s'
            \<and> 0 \<le> robuxScore (screen s'))"
proof -
  let ?s = "playing 995 0 ''41''"
  have a: "\<not> isAnswered (screen ?s)" "\<not> strictEquals (Num 41) (currentQuestion (screen ?s))"
    "trim (typedAnswer (screen ?s)) = ''41''" "parseInt (typedAnswer (screen ?s)) = Num 41"
    "robuxScore (screen ?s) = 995"
    by (simp_all add: handler_defs)
  obtain s' where r: "run Index_tsx ?s [ClickOption 41] = Some s'"
    by (simp add: playing_def Let_def)
  from wrong_answer_penalty [of ?s 41 Index_tsx "[ClickOption 41]" s'] a r
  show ?thesis by simp
qed

section \<open>The streaks\<close>

text \<open>
  An evaluation leaves exactly one streak nonzero; every other event leaves both streaks
  as they are.
\<close>

lemma step_streaks:
  assumes "0 \<le> correctStreak (screen s)" and "0 \<le> wrongStreak (screen s)"
    and "step src s e = Some s'"
  shows "if evaluates s e then oneStreak (screen s')
         else correctStreak (screen s') = correctStreak (screen s)
              \<and> wrongStreak (screen s') = wrongStreak (screen s)"
proof (cases e)
  case (StartGame rs sortRandomly)
  with assms show ?thesis by (auto simp: setQuestion_def split: if_splits option.splits)
next
  case (ClickOption x)
  with assms show ?thesis
    by (auto simp: handleAnswer_def correctUpdates_def wrongUpdates_def runEffects_frame Let_def
                   oneStreak_def
             split: if_splits)
next
  case (TypeText t)
  with assms show ?thesis by (auto split: if_splits)
next
  case SubmitTyped
  with assms show ?thesis
    by (auto simp: handleTypedAnswerSubmit_def correctUpdates_def wrongUpdates_def
                   runEffects_frame Let_def oneStreak_def
             split: if_splits)
next
  case (TimerFires rs sortRandomly)
  with assms show ?thesis
    by (auto simp: setQuestion_def split: list.splits option.splits if_splits)
qed

lemma run_streaks:
  assumes "0 \<le> correctStreak (screen s)" and "0 \<le> wrongStreak (screen s)"
    and "run src s evs = Some s'"
  shows "if evaluations src s evs = 0
         then correctStreak (screen s') = correctStreak (screen s)
              \<and> wrongStreak (screen s') = wrongStreak (screen s)
         else oneStreak (screen s')"
  using assms
proof (induction evs arbitrary: s)
  case Nil
  then show ?case by simp
next
  case (Cons e evs)
  from Cons.prems(3) obtain s1 where 1: "step src s e = Some s1" and 2: "run src s1 evs = Some s'"
    by (auto split: option.splits)
  note st = step_streaks [OF Cons.prems(1,2) 1]
  then have nn: "0 \<le> correctStreak (screen s1)" "0 \<le> wrongStreak (screen s1)"
    using Cons.prems(1,2) by (auto simp: oneStreak_def split: if_splits)
  note ih = Cons.IH [OF nn 2]
  show ?case
  proof (cases "evaluates s e")
    case True
    with st have "oneStreak (screen s1)" by simp
    with ih have "oneStreak (screen s')" by (auto simp: oneStreak_def split: if_splits)
    with True 1 show ?thesis by simp
  next
    case False
    with st ih 1 show ?thesis by (auto split: if_splits)
  qed
qed

text \<open>
  Claim C5. The streak counters exclude each other: a correct evaluation sets
  \<open>wrongStreak\<close> to 0 and adds 1 to \<open>correctStreak\<close>, a wrong one sets \<open>correctStreak\<close> to 0
  and adds 1 to \<open>wrongStreak\<close> (for a clicked option and for a typed answer), so in a
  session exactly one of the two is nonzero once an answer has been evaluated, and both
  are zero exactly as long as none has been.
\<close>

theorem streaks_exclude_each_other:
  fixes s :: Session
  defines "st \<equiv> screen s"
  defines "typed \<equiv> parseInt (typedAnswer (screen s))"
  shows "(\<not> isAnswered st \<and> strictEquals (Num x) (currentQuestion st)
            \<longrightarrow> wrongStreak (screen (handleAnswer s x)) = 0
              \<and> correctStreak (screen (handleAnswer s x)) = correctStreak st + 1)
       \<and> (\<not> isAnswered st \<and> \<not> strictEquals (Num x) (currentQuestion st)
            \<longrightarrow> correctStreak (screen (handleAnswer s x)) = 0
              \<and> wrongStreak (screen (handleAnswer s x)) = wrongStreak st + 1)
       \<and> (\<not> isAnswered st \<and> trim (typedAnswer st) \<noteq> [] \<and> strictEquals typed (currentQuestion st)
            \<longrightarrow> wrongStreak (screen (handleTypedAnswerSubmit s)) = 0
              \<and> correctStreak (screen (handleTypedAnswerSubmit s)) = correctStreak st + 1)
       \<and> (\<not> isAnswered st \<and> trim (typedAnswer st) \<noteq> [] \<and> \<not> strictEquals typed (currentQuestion st)
            \<longrightarrow> correctStreak (screen (handleTypedAnswerSubmit s)) = 0
              \<and> wrongStreak (screen (handleTypedAnswerSubmit s)) = wrongStreak st + 1)
       \<and> (run src (mount d) evs = Some s'
            \<longrightarrow> (if evaluations src (mount d) evs = 0
                 then correctStreak (screen s') = 0 \<and> wrongStreak (screen s') = 0
                 else (correctStreak (screen s') = 0 \<and> 0 < wrongStreak (screen s'))
                      \<or> (0 < correctStreak (screen s') \<and> wrongStreak (screen s') = 0)))"
proof -
  have m: "correctStreak (screen (mount d)) = 0" "wrongStreak (screen (mount d)) = 0"
    by (simp_all add: mount_def difficultyEffect_def)
  have r: "if evaluations src (mount d) evs = 0
           then correctStreak (screen s') = 0 \<and> wrongStreak (screen s') = 0
           else (correctStreak (screen s') = 0 \<and> 0 < wrongStreak (screen s'))
                \<or> (0 < correctStreak (screen s') \<and> wrongStreak (screen s') = 0)"
    if "run src (mount d) evs = Some s'"
    using run_streaks [OF _ _ that] m by (auto simp: oneStreak_def split: if_splits)
  show ?thesis
    unfolding st_def typed_def
    using r
    by (simp add: handleAnswer_def handleTypedAnswerSubmit_def correctUpdates_def
          wrongUpdates_def Let_def)
qed

lemma firstTape_question:
  "generateQuestion src rev (screen (mount Easy)) firstTape
   = Some \<lparr>num1 = 2, num2 = 7, answer = 14, options = [20, 8, 22, 14]\<rparr>"
  by (cases src) (simp_all add: eval_defs firstTape_def)

theorem streaks_exclude_each_other_witness:
  "\<not> isAnswered (screen (playing 0 2 ''42''))
   \<and> strictEquals (Num 42) (currentQuestion (screen (playing 0 2 ''42'')))
   \<and> wrongStreak (screen (handleAnswer (playing 0 2 ''42'') 42)) = 0
   \<and> correctStreak (screen (handleAnswer (playing 0 2 ''42'') 42)) = 1
   \<and> wrongStreak (screen (handleTypedAnswerSubmit (playing 0 2 ''42''))) = 0
   \<and> correctStreak (screen (handleTypedAnswerSubmit (playing 0 2 ''42''))) = 1
   \<and> \<not> strictEquals (Num 41) (currentQuestion (screen (playing 0 2 ''41'')))
   \<and> correctStreak (screen (handleAnswer (playing 0 2 ''41'') 41)) = 0
   \<and> wrongStreak (screen (handleAnswer (playing 0 2 ''41'') 41)) = 3
   \<and> correctStreak (screen (handleTypedAnswerSubmit (playing 0 2 ''41''))) = 0
   \<and> wrongStreak (screen (handleTypedAnswerSubmit (playing 0 2 ''41''))) = 3
   \<and> run Index_tsx (mount Easy) [StartGame firstTape rev, ClickOption 14] \<noteq> None
   \<and> evaluations Index_tsx (mount Easy) [StartGame firstTape rev, ClickOption 14] = 1
   \<and> correctStreak (screen (the (run Index_tsx (mount Easy) [StartGame firstTape rev, ClickOption 14]))) = 1
   \<and> wrongStreak (screen (the (run Index_tsx (mount Easy) [StartGame firstTape rev, ClickOption 14]))) = 0"
proof -
  let ?evs = "[StartGame firstTape rev, ClickOption 14]"
  have a: "\<not> isAnswered (screen (playing 0 2 ''42''))"
    "strictEquals (Num 42) (currentQuestion (screen (playing 0 2 ''42'')))"
    "trim (typedAnswer (screen (playing 0 2 ''42''))) \<noteq> []"
    "strictEquals (parseInt (typedAnswer (screen (playing 0 2 ''42'')))) (currentQuestion (screen (playing 0 2 ''42'')))"
    "correctStreak (screen (playing 0 2 ''42'')) = 0"
    by (simp_all add: handler_defs)
  have b: "\<not> isAnswered (screen (playing 0 2 ''41''))"
    "\<not> strictEquals (Num 41) (currentQuestion (screen (playing 0 2 ''41'')))"
    "trim (typedAnswer (screen (playing 0 2 ''41''))) \<noteq> []"
    "\<not> strictEquals (parseInt (typedAnswer (screen (playing 0 2 ''41'')))) (currentQuestion (screen (playing 0 2 ''41'')))"
    "wrongStreak (screen (playing 0 2 ''41'')) = 2"
    by (simp_all add: handler_defs)
  have i: "showIntroMessage (screen (mount Easy))"
    by (simp add: mount_def initialState_def difficultyEffect_def)
  have r: "run Index_tsx (mount Easy) ?evs \<noteq> None"
    by (simp add: i firstTape_question setQuestion_def Let_def)
  have e: "evaluations Index_tsx (mount Easy) ?evs = 1"
    by (simp add: i firstTape_question setQuestion_def Let_def)
  have c: "correctStreak (screen (the (run Index_tsx (mount Easy) ?evs))) = 1"
    by (simp add: eval_defs handler_defs firstTape_def setQuestion_def)
  from r have r': "run Index_tsx (mount Easy) ?evs = Some (the (run Index_tsx (mount Easy) ?evs))"
    by simp
  from streaks_exclude_each_other [of "playing 0 2 ''42''" 42 Index_tsx Easy ?evs
      "the (run Index_tsx (mount Easy) ?evs)"]
    streaks_exclude_each_other [of "playing 0 2 ''41''" 41 Index_tsx Easy ?evs
      "the (run Index_tsx (mount Easy) ?evs)"]
    a b r r' e c
  show ?thesis by simp
qed

section \<open>The difficulty level\<close>

text \<open>What one event does to \<open>difficultyLevel\<close>.\<close>

lemma step_difficultyLevel:
  assumes "step src s e = Some s'"
  shows "difficultyLevel (screen s') =
           (if wrongStreak (screen s') \<noteq> wrongStreak (screen s)
               \<and> 0 < wrongStreak (screen s') \<and> wrongStreak (screen s') mod 3 = 0
            then max 0 (difficultyLevel (screen s) - 1)
            else difficultyLevel (screen s))"
proof (cases e)
  case (StartGame rs sortRandomly)
  with assms show ?thesis by (auto simp: setQuestion_def split: if_splits option.splits)
next
  case (ClickOption x)
  with assms show ?thesis
    by (auto simp: handleAnswer_def correctUpdates_def wrongUpdates_def runEffects_def
                   wrongStreakEffect_def Let_def
             split: if_splits)
next
  case (TypeText t)
  with assms show ?thesis by (auto split: if_splits)
next
  case SubmitTyped
  with assms show ?thesis
    by (auto simp: handleTypedAnswerSubmit_def correctUpdates_def wrongUpdates_def
                   runEffects_def wrongStreakEffect_def Let_def
             split: if_splits)
next
  case (TimerFires rs sortRandomly)
  with assms show ?thesis
    by (auto simp: setQuestion_def split: list.splits option.splits if_splits)
qed

text \<open>
  Claim C8. \<open>difficultyLevel\<close> starts at 0 for Easy, 2 for Moderate and 5 for Hard; an
  event lowers it by 1, but not below 0, exactly when it brings \<open>wrongStreak\<close> to a positive
  multiple of 3, and no other event changes it; it is never negative.
\<close>

theorem difficultyLevel_decrement:
  "difficultyLevel (screen (mount d)) = (case d of Easy \<Rightarrow> 0 | Moderate \<Rightarrow> 2 | Hard \<Rightarrow> 5)
   \<and> (step src s e = Some s'
        \<longrightarrow> difficultyLevel (screen s') =
              (if wrongStreak (screen s') \<noteq> wrongStreak (screen s)
                  \<and> 0 < wrongStreak (screen s') \<and> wrongStreak (screen s') mod 3 = 0
               then max 0 (difficultyLevel (screen s) - 1)
               else difficultyLevel (screen s)))
   \<and> (run src (mount d) evs = Some s'' \<longrightarrow> 0 \<le> difficultyLevel (screen s''))"
proof -
  have 1: "difficultyLevel (screen (mount d)) = (case d of Easy \<Rightarrow> 0 | Moderate \<Rightarrow> 2 | Hard \<Rightarrow> 5)"
    by (simp add: mount_def initialState_def difficultyEffect_def)
  have 3: "0 \<le> difficultyLevel (screen s'')" if "run src (mount d) evs = Some s''"
    using run_invariant [OF that] by (simp add: sessionInvariant_def nonNegative_def)
  from 1 3 step_difficultyLevel [of src s e s'] show ?thesis by blast
qed

theorem difficultyLevel_decrement_witness:
  "difficultyLevel (screen (mount Hard)) = 5
   \<and> wrongStreak (screen (playing 0 2 [])) = 2
   \<and> difficultyLevel (screen (playing 0 2 [])) = 5
   \<and> (\<exists>s'. step Index_tsx (playing 0 2 []) (ClickOption 41) = Some s'
           \<and> wrongStreak (screen s') = 3 \<and> difficultyLevel (screen s') = 4)
   \<and> run Index_tsx (mount Hard) [] = Some (mount Hard)
   \<and> 0 \<le> difficultyLevel (screen (mount Hard))"
proof -
  let ?s = "playing 0 2 []"
  obtain s' where a: "step Index_tsx ?s (ClickOption 41) = Some s'"
    and b: "wrongStreak (screen s') = 3"
    by (simp add: handler_defs)
  have c: "wrongStreak (screen ?s) = 2" "difficultyLevel (screen ?s) = 5"
    by (simp_all add: playing_def)
  have r: "run Index_tsx (mount Hard) [] = Some (mount Hard)" by simp
  note th = difficultyLevel_decrement [of Hard Index_tsx ?s "ClickOption 41" s' "[]" "mount Hard"]
  from th a have "difficultyLevel (screen s') =
      (if wrongStreak (screen s') \<noteq> wrongStreak (screen ?s)
          \<and> 0 < wrongStreak (screen s') \<and> wrongStreak (screen s') mod 3 = 0
       then max 0 (difficultyLevel (screen ?s) - 1)
       else difficultyLevel (screen ?s))"
    by blast
  with b c have d: "difficultyLevel (screen s') = 4" by simp
  from th r have e: "difficultyLevel (screen (mount Hard)) = 5"
    "0 \<le> difficultyLevel (screen (mount Hard))"
    by simp_all
  from a b d have "\<exists>s'. step Index_tsx ?s (ClickOption 41) = Some s'
           \<and> wrongStreak (screen s') = 3 \<and> difficultyLevel (screen s') = 4"
    by blast
  with c e r show ?thesis by blast
qed

section \<open>Answering twice\<close>

text \<open>With \<open>isAnswered\<close> set, both handlers and both answer events do nothing.\<close>

lemma answered_noop:
  assumes "isAnswered (screen s)"
  shows "handleAnswer s x = s \<and> handleTypedAnswerSubmit s = s
         \<and> step src s (ClickOption x) = Some s \<and> step src s SubmitTyped = Some s"
  using assms
  by (simp add: handleAnswer_def handleTypedAnswerSubmit_def runEffects_def Let_def)

text \<open>
  Claim C10. Once a question is answered, invoking an answer handler again before the
  next question is generated does nothing: either handler returns at once and the event
  leaves the whole session as it was (score, streaks, \<open>correctAnswersCount\<close>,
  \<open>difficultyLevel\<close>, feedback, and the waiting timer). A question is answered as soon as
  a click has been handled, or the submission of a text that is not blank.
\<close>

theorem second_answer_is_noop:
  "(isAnswered (screen s)
      \<longrightarrow> handleAnswer s x = s \<and> handleTypedAnswerSubmit s = s
        \<and> step src s (ClickOption x) = Some s \<and> step src s SubmitTyped = Some s)
   \<and> isAnswered (screen (handleAnswer s x))
   \<and> (trim (typedAnswer (screen s)) \<noteq> [] \<longrightarrow> isAnswered (screen (handleTypedAnswerSubmit s)))
   \<and> handleAnswer (handleAnswer s x) y = handleAnswer s x
   \<and> handleTypedAnswerSubmit (handleAnswer s x) = handleAnswer s x
   \<and> handleTypedAnswerSubmit (handleTypedAnswerSubmit s) = handleTypedAnswerSubmit s
   \<and> (trim (typedAnswer (screen s)) \<noteq> []
        \<longrightarrow> handleAnswer (handleTypedAnswerSubmit s) y = handleTypedAnswerSubmit s)"
proof -
  have 1: "isAnswered (screen (handleAnswer s x))"
    by (simp add: handleAnswer_def Let_def handlers_frame)
  have 2: "isAnswered (screen (handleTypedAnswerSubmit s))" if "trim (typedAnswer (screen s)) \<noteq> []"
    using that by (simp add: handleTypedAnswerSubmit_def Let_def handlers_frame)
  have 3: "handleTypedAnswerSubmit (handleTypedAnswerSubmit s) = handleTypedAnswerSubmit s"
  proof (cases "trim (typedAnswer (screen s)) = []")
    case True
    then show ?thesis by (simp add: handleTypedAnswerSubmit_def Let_def)
  next
    case False
    from answered_noop [OF 2 [OF False]] show ?thesis by simp
  qed
  have 4: "handleAnswer (handleAnswer s x) y = handleAnswer s x"
    "handleTypedAnswerSubmit (handleAnswer s x) = handleAnswer s x"
    using answered_noop [OF 1, of y src] by simp_all
  have 5: "handleAnswer (handleTypedAnswerSubmit s) y = handleTypedAnswerSubmit s"
    if "trim (typedAnswer (screen s)) \<noteq> []"
    using answered_noop [OF 2 [OF that], of y src] by simp
  from 1 2 3 4 5 answered_noop [of s x src] show ?thesis by blast
qed

theorem second_answer_is_noop_witness:
  "\<not> isAnswered (screen (playing 10 0 ''41''))
   \<and> isAnswered (screen (handleAnswer (playing 10 0 ''41'') 41))
   \<and> robuxScore (screen (handleAnswer (playing 10 0 ''41'') 41)) = 8
   \<and> handleAnswer (handleAnswer (playing 10 0 ''41'') 41) 42 = handleAnswer (playing 10 0 ''41'') 41
   \<and> handleTypedAnswerSubmit (handleAnswer (playing 10 0 ''41'') 41) = handleAnswer (playing 10 0 ''41'') 41
   \<and> step Index_tsx (handleAnswer (playing 10 0 ''41'') 41) (ClickOption 42)
       = Some (handleAnswer (playing 10 0 ''41'') 41)
   \<and> step Index_tsx (handleAnswer (playing 10 0 ''41'') 41) SubmitTyped
       = Some (handleAnswer (playing 10 0 ''41'') 41)
   \<and> trim (typedAnswer (screen (playing 10 0 ''41''))) = ''41''
   \<and> handleAnswer (handleTypedAnswerSubmit (playing 10 0 ''41'')) 42
       = handleTypedAnswerSubmit (playing 10 0 ''41'')"
proof -
  let ?s = "playing 10 0 ''41''"
  have a: "\<not> isAnswered (screen ?s)" "trim (typedAnswer (screen ?s)) = ''41''"
    "robuxScore (screen (handleAnswer ?s 41)) = 8"
    by (simp_all add: handler_defs)
  from a(2) have b: "trim (typedAnswer (screen ?s)) \<noteq> []" by simp
  note th1 = second_answer_is_noop [of ?s 41 Index_tsx 42]
  note th2 = second_answer_is_noop [of "handleAnswer ?s 41" 42 Index_tsx 42]
  from th1 have c: "isAnswered (screen (handleAnswer ?s 41))" by blast
  from th1 b have d: "handleAnswer (handleAnswer ?s 41) 42 = handleAnswer ?s 41"
    "handleTypedAnswerSubmit (handleAnswer ?s 41) = handleAnswer ?s 41"
    "handleAnswer (handleTypedAnswerSubmit ?s) 42 = handleTypedAnswerSubmit ?s"
    by blast+
  from th2 c have e: "step Index_tsx (handleAnswer ?s 41) (ClickOption 42) = Some (handleAnswer ?s 41)"
    "step Index_tsx (handleAnswer ?s 41) SubmitTyped = Some (handleAnswer ?s 41)"
    by blast+
  from a c d e show ?thesis by blast
qed

section \<open>Text that is not a number\<close>

text \<open>\<open>parseInt\<close> returns \<open>NaN\<close> exactly when no digit follows the white space and the sign.\<close>

lemma parseInt_NaN_iff:
  "parseInt s = NaN \<longleftrightarrow>
     (case dropWhile isWhiteSpace s of
        [] \<Rightarrow> True
      | ch # t \<Rightarrow>
          if ch = CHR ''-'' \<or> ch = CHR ''+''
          then (case t of [] \<Rightarrow> True | d # _ \<Rightarrow> \<not> isDigit d)
          else \<not> isDigit ch)"
proof -
  define s1 where "s1 = dropWhile isWhiteSpace s"
  have "takeWhile isDigit xs = [] \<longleftrightarrow> (case xs of [] \<Rightarrow> True | d # _ \<Rightarrow> \<not> isDigit d)" for xs
    by (cases xs) simp_all
  then show ?thesis
    unfolding parseInt_def Let_def s1_def [symmetric]
    by (cases s1) simp_all
qed

text \<open>
  Claim C9, as the code has it. Submitting, for a question that is not answered yet, text
  that is not blank and in which \<open>parseInt\<close> finds no integer never compares equal to the
  answer: the handler evaluates it as a wrong answer, with the penalty of the current
  score, \<open>correctStreak\<close> set to 0, \<open>wrongStreak\<close> increased by 1 and \<open>NaN\<close> recorded as the
  wrong selection. Blank text is not evaluated: the handler returns the session as it is.
  (The handler has no failing branch: it is a total function of the session.)
\<close>

theorem malformed_text_is_wrong_answer:
  "(\<not> isAnswered (screen s) \<and> trim (typedAnswer (screen s)) \<noteq> []
      \<and> parseInt (typedAnswer (screen s)) = NaN
    \<longrightarrow> \<not> strictEquals (parseInt (typedAnswer (screen s))) (currentQuestion (screen s))
      \<and> handleTypedAnswerSubmit s =
           \<lparr>screen = (screen s)
               \<lparr>isAnswered := True,
                robuxScore := max 0 (robuxScore (screen s) - getPenalty (robuxScore (screen s))),
                correctStreak := 0,
                wrongStreak := wrongStreak (screen s) + 1,
                feedback := Some NaN\<rparr>,
            timers = timers s @ [(screen s, True)]\<rparr>)
   \<and> (trim (typedAnswer (screen s)) = [] \<longrightarrow> handleTypedAnswerSubmit s = s)"
  by (simp add: handleTypedAnswerSubmit_def strictEquals_def wrongUpdates_def Let_def)

theorem malformed_text_is_wrong_answer_witness:
  "\<not> isAnswered (screen (playing 10 0 ''abc''))
   \<and> trim (typedAnswer (screen (playing 10 0 ''abc''))) = ''abc''
   \<and> parseInt (typedAnswer (screen (playing 10 0 ''abc''))) = NaN
   \<and> robuxScore (screen (handleTypedAnswerSubmit (playing 10 0 ''abc''))) = 8
   \<and> correctStreak (screen (handleTypedAnswerSubmit (playing 10 0 ''abc''))) = 0
   \<and> wrongStreak (screen (handleTypedAnswerSubmit (playing 10 0 ''abc''))) = 1
   \<and> isAnswered (screen (handleTypedAnswerSubmit (playing 10 0 ''abc'')))
   \<and> trim (typedAnswer (screen (playing 10 0 []))) = []
   \<and> handleTypedAnswerSubmit (playing 10 0 []) = playing 10 0 []"
proof -
  let ?s = "playing 10 0 ''abc''"
  have a: "\<not> isAnswered (screen ?s)" "trim (typedAnswer (screen ?s)) = ''abc''"
    "parseInt (typedAnswer (screen ?s)) = NaN" "robuxScore (screen ?s) = 10"
    "wrongStreak (screen ?s) = 0"
    by (simp_all add: handler_defs)
  have b: "trim (typedAnswer (screen (playing 10 0 []))) = []"
    by (simp add: playing_def trim_def)
  from malformed_text_is_wrong_answer [of ?s] a
  have 1: "robuxScore (screen (handleTypedAnswerSubmit ?s)) = 8
     \<and> correctStreak (screen (handleTypedAnswerSubmit ?s)) = 0
     \<and> wrongStreak (screen (handleTypedAnswerSubmit ?s)) = 1
     \<and> isAnswered (screen (handleTypedAnswerSubmit ?s))"
    by (simp add: getPenalty_def)
  from malformed_text_is_wrong_answer [of "playing 10 0 []"] b
  have 2: "handleTypedAnswerSubmit (playing 10 0 []) = playing 10 0 []" by blast
  from a b 1 2 show ?thesis by blast
qed

text \<open>
  Claim C9 as the spec states it (any text that is not numeric counts as a wrong answer,
  with a penalty) fails for blank text, which is not numeric either: the guard of the
  handler returns before anything is evaluated, so the score stays at 10, \<open>wrongStreak\<close>
  stays at 0 and the question stays unanswered.
\<close>

theorem blank_text_counterexample:
  "parseInt ''   '' = NaN
   \<and> \<not> isAnswered (screen (playing 10 0 ''   ''))
   \<and> handleTypedAnswerSubmit (playing 10 0 ''   '') = playing 10 0 ''   ''
   \<and> robuxScore (screen (handleTypedAnswerSubmit (playing 10 0 ''   ''))) = 10
   \<and> wrongStreak (screen (handleTypedAnswerSubmit (playing 10 0 ''   ''))) = 0
   \<and> \<not> isAnswered (screen (handleTypedAnswerSubmit (playing 10 0 ''   '')))"
  by (simp add: handler_defs)

text \<open>
  Text with a leading integer is read as that integer, whatever follows it: \<open>42abc\<close> is
  evaluated as the correct answer to \<open>6 x 7\<close>.
\<close>

lemma leading_integer_example:
  "parseInt ''42abc'' = Num 42
   \<and> robuxScore (screen (handleTypedAnswerSubmit (playing 10 0 ''42abc''))) = 15
   \<and> correctStreak (screen (handleTypedAnswerSubmit (playing 10 0 ''42abc''))) = 1"
  by (simp add: handler_defs)

section \<open>No immediate repetition\<close>

text \<open>The loop ends on a pair that is not the \<open>lastQuestion\<close> it read, in either order.\<close>

lemma generateQuestion_not_repeated:
  assumes "generateQuestion src sortRandomly c rs = Some q"
    and "lastQuestion c = Some (a, b)"
  shows "\<not> (num1 q = a \<and> num2 q = b) \<and> \<not> (num1 q = b \<and> num2 q = a)"
proof -
  from assms(1) obtain n1 n2 rs' where
    p: "pickOperands src c rs = Some ((n1, n2), rs')" and q: "num1 q = n1" "num2 q = n2"
    by (auto simp: generateQuestion_def Let_def split: option.splits)
  from pickOperands_last_pass [OF p] have "\<not> isRepeated c n1 n2" by blast
  with assms(2) q show ?thesis by (simp add: isRepeated_def)
qed

text \<open>The answer handlers and the input leave the question on screen alone.\<close>

lemma step_keeps_question:
  assumes "step src s e = Some s'"
    and "e = ClickOption x \<or> e = TypeText t \<or> e = SubmitTyped"
  shows "currentQuestion (screen s') = currentQuestion (screen s)"
  using assms
  by (auto simp: handleAnswer_def handleTypedAnswerSubmit_def handlers_frame runEffects_frame
                 Let_def
           split: if_splits)

text \<open>
  Claim C3. No two questions generated one after the other have the same operand pair,
  in either order. In a session, when the timer fires and generates a question while
  \<open>q\<close> is on screen, the new question's pair is neither \<open>(num1 q, num2 q)\<close> nor
  \<open>(num2 q, num1 q)\<close>, and it becomes the new \<open>lastQuestion\<close>; between two generations
  the question on screen does not change. For the function itself: the pair it returns
  differs, in both orders, from the \<open>lastQuestion\<close> it reads, whenever there is one.
\<close>

theorem consecutive_questions_differ:
  "(generateQuestion src sortRandomly c rs = Some q1 \<and> lastQuestion c = Some (a, b)
      \<longrightarrow> \<not> (num1 q1 = a \<and> num2 q1 = b) \<and> \<not> (num1 q1 = b \<and> num2 q1 = a))
   \<and> (run src (mount d) evs = Some s \<and> currentQuestion (screen s) = Some q
        \<and> timers s \<noteq> [] \<and> step src s (TimerFires rs sortRandomly) = Some s'
      \<longrightarrow> (\<exists>q'. currentQuestion (screen s') = Some q'
                \<and> lastQuestion (screen s') = Some (num1 q', num2 q')
                \<and> \<not> (num1 q' = num1 q \<and> num2 q' = num2 q)
                \<and> \<not> (num1 q' = num2 q \<and> num2 q' = num1 q)))
   \<and> (step src s0 e = Some s1 \<and> (e = ClickOption x \<or> e = TypeText t \<or> e = SubmitTyped)
      \<longrightarrow> currentQuestion (screen s1) = currentQuestion (screen s0))"
proof -
  have 2: "\<exists>q'. currentQuestion (screen s') = Some q'
                \<and> lastQuestion (screen s') = Some (num1 q', num2 q')
                \<and> \<not> (num1 q' = num1 q \<and> num2 q' = num2 q)
                \<and> \<not> (num1 q' = num2 q \<and> num2 q' = num1 q)"
    if r: "run src (mount d) evs = Some s" and q: "currentQuestion (screen s) = Some q"
      and t: "timers s \<noteq> []" and st: "step src s (TimerFires rs sortRandomly) = Some s'"
  proof -
    from run_invariant [OF r] have inv: "sessionInvariant s" .
    from t obtain c0 clearTyped ts where ts: "timers s = (c0, clearTyped) # ts"
      by (cases "timers s") auto
    with inv q have l: "lastQuestion c0 = Some (num1 q, num2 q)"
      by (simp add: sessionInvariant_def operandPair_def)
    from st ts obtain q' where g: "generateQuestion src sortRandomly c0 rs = Some q'"
      and s': "screen s' = setQuestion q' (if clearTyped then (screen s)\<lparr>typedAnswer := []\<rparr> else screen s)"
      by (auto split: option.splits)
    from generateQuestion_not_repeated [OF g l] s' show ?thesis
      by (simp add: setQuestion_def)
  qed
  from 2 generateQuestion_not_repeated [of src sortRandomly c rs q1 a b]
    step_keeps_question [of src s0 e s1 x t]
  show ?thesis by blast
qed

lemma afterFirstAnswer_reached:
  "run Index_tsx (mount Easy) [StartGame firstTape rev, ClickOption 14] = Some afterFirstAnswer"
  by (simp add: eval_defs handler_defs firstTape_def setQuestion_def afterFirstAnswer_def)

lemma secondTape_question:
  "step Index_tsx afterFirstAnswer (TimerFires secondTape rev) =
     Some \<lparr>screen =
        \<lparr>difficulty = Easy, robuxScore = 5,
         currentQuestion = Some \<lparr>num1 = 3, num2 = 5, answer = 15, options = [21, 9, 27, 15]\<rparr>,
         correctStreak = 1, wrongStreak = 0, correctAnswersCount = 1, feedback = None,
         isAnswered = False, difficultyLevel = 0, showIntroMessage = False, typedAnswer = [],
         lastQuestion = Some (3, 5)\<rparr>,
      timers = []\<rparr>"
  by (simp add: eval_defs secondTape_def setQuestion_def afterFirstAnswer_def)

lemma secondTape_generate:
  "generateQuestion Index_tsx rev (fst (hd (timers afterFirstAnswer))) secondTape
   = Some \<lparr>num1 = 3, num2 = 5, answer = 15, options = [21, 9, 27, 15]\<rparr>"
  by (simp add: eval_defs secondTape_def afterFirstAnswer_def)

theorem consecutive_questions_differ_witness:
  "lastQuestion (fst (hd (timers afterFirstAnswer))) = Some (2, 7)
   \<and> generateQuestion Index_tsx rev (fst (hd (timers afterFirstAnswer))) secondTape
       = Some \<lparr>num1 = 3, num2 = 5, answer = 15, options = [21, 9, 27, 15]\<rparr>
   \<and> run Index_tsx (mount Easy) [StartGame firstTape rev, ClickOption 14] = Some afterFirstAnswer
   \<and> currentQuestion (screen afterFirstAnswer)
       = Some \<lparr>num1 = 2, num2 = 7, answer = 14, options = [20, 8, 22, 14]\<rparr>
   \<and> timers afterFirstAnswer \<noteq> []
   \<and> (\<exists>s' q'. step Index_tsx afterFirstAnswer (TimerFires secondTape rev) = Some s'
         \<and> currentQuestion (screen s') = Some q'
         \<and> lastQuestion (screen s') = Some (num1 q', num2 q')
         \<and> (num1 q', num2 q') \<noteq> (2, 7) \<and> (num1 q', num2 q') \<noteq> (7, 2))
   \<and> step Index_tsx afterFirstAnswer (TypeText ''9'')
       = Some (afterFirstAnswer\<lparr>screen := (screen afterFirstAnswer)\<lparr>typedAnswer := ''9''\<rparr>\<rparr>)
   \<and> currentQuestion (screen (afterFirstAnswer\<lparr>screen := (screen afterFirstAnswer)\<lparr>typedAnswer := ''9''\<rparr>\<rparr>))
       = Some \<lparr>num1 = 2, num2 = 7, answer = 14, options = [20, 8, 22, 14]\<rparr>"
proof -
  let ?q = "\<lparr>num1 = 2, num2 = 7, answer = 14, options = [20, 8, 22, 14]\<rparr>"
  let ?c = "fst (hd (timers afterFirstAnswer))"
  have a: "currentQuestion (screen afterFirstAnswer) = Some ?q" "timers afterFirstAnswer \<noteq> []"
    "lastQuestion ?c = Some (2, 7)"
    by (simp_all add: afterFirstAnswer_def)
  let ?s1 = "afterFirstAnswer\<lparr>screen := (screen afterFirstAnswer)\<lparr>typedAnswer := ''9''\<rparr>\<rparr>"
  have b: "step Index_tsx afterFirstAnswer (TypeText ''9'') = Some ?s1"
    by (simp add: afterFirstAnswer_def)
  obtain s' where s': "step Index_tsx afterFirstAnswer (TimerFires secondTape rev) = Some s'"
    using secondTape_question by blast
  note th = consecutive_questions_differ [of Index_tsx rev ?c secondTape _ 2 7 Easy
      "[StartGame firstTape rev, ClickOption 14]" afterFirstAnswer ?q s'
      afterFirstAnswer "TypeText ''9''" ?s1 _ "''9''"]
  from th afterFirstAnswer_reached a s'
  have "\<exists>q'. currentQuestion (screen s') = Some q'
                \<and> lastQuestion (screen s') = Some (num1 q', num2 q')
                \<and> \<not> (num1 q' = num1 ?q \<and> num2 q' = num2 ?q)
                \<and> \<not> (num1 q' = num2 ?q \<and> num2 q' = num1 ?q)"
    by blast
  then have "\<exists>q'. currentQuestion (screen s') = Some q'
         \<and> lastQuestion (screen s') = Some (num1 q', num2 q')
         \<and> (num1 q', num2 q') \<noteq> (2, 7) \<and> (num1 q', num2 q') \<noteq> (7, 2)"
    by simp
  moreover from th b a have "currentQuestion (screen ?s1) = Some ?q" by simp
  ultimately show ?thesis
    using s' afterFirstAnswer_reached a b secondTape_generate by blast
qed

section \<open>No multiplication by 1\<close>

text \<open>
  In \<open>index.tsx\<close> a question generated from a score of at least 100 has no operand 1: an
  operand that the cascade drew as 1 is replaced by \<open>Math.floor(Math.random() * 3) + 2\<close>,
  one of 2, 3, 4.
\<close>

lemma index_tsx_no_times_one:
  assumes "generateQuestion Index_tsx sortRandomly c rs = Some q"
    and "list_all unitInterval rs" and "100 \<le> robuxScore c"
  shows "num1 q \<noteq> 1 \<and> num2 q \<noteq> 1"
proof -
  from assms(1) obtain n1 n2 rs' where
    p: "pickOperands Index_tsx c rs = Some ((n1, n2), rs')" and q: "num1 q = n1" "num2 q = n2"
    by (auto simp: generateQuestion_def Let_def split: option.splits)
  from pickOperands_last_pass [OF p] obtain rs0
    where "set rs0 \<subseteq> set rs" and b: "loopBody Index_tsx c rs0 = Some ((n1, n2), rs')" by blast
  with assms(2) have "list_all unitInterval rs0" by (auto simp: list_all_iff)
  from loopBody_not_one [OF b this assms(3)] q show ?thesis by simp
qed

text \<open>
  Claim C4 (from a score of 100 on, no question that \<open>generateQuestion\<close> produces has an
  operand 1) fails in the second source file, whose \<open>generateQuestion\<close> lacks the block:
  reading a score of 100 it produces \<open>4 x 1\<close> (the Moderate branch draws 4, then
  \<open>Math.floor(0 * 10) + 1 = 1\<close>, and does not swap).
\<close>

theorem part_000_times_one:
  "generateQuestion Part_000 rev scoreHundred [0, 0, 3/4, 0, 0, 9/10, 0, 7/10, 3/4, 8/10, 1/4]
   = Some \<lparr>num1 = 4, num2 = 1, answer = 4, options = [7, 12, 5, 4]\<rparr>"
  by (simp add: eval_defs scoreHundred_def)

text \<open>On the same draws \<open>index.tsx\<close> replaces the 1 (here by \<open>Math.floor(1/2 * 3) + 2 = 3\<close>).\<close>

lemma index_tsx_same_draws:
  "generateQuestion Index_tsx rev scoreHundred
     [0, 0, 3/4, 1/2, 0, 0, 9/10, 0, 7/10, 3/4, 8/10, 1/4, 0, 0, 0, 0]
   = Some \<lparr>num1 = 4, num2 = 3, answer = 12, options = [21, 20, 13, 12]\<rparr>"
  by (simp add: eval_defs scoreHundred_def)

text \<open>
  The state \<open>scoreHundred\<close> is reached in a session of the second source file: Moderate
  tier, the questions \<open>5 x 3\<close> and \<open>4 x 2\<close> in turn, each answered correctly.
\<close>

lemma scoreHundred_reached:
  "run Part_000 (mount Moderate) twentyCorrect = Some \<lparr>screen = scoreHundred, timers = []\<rparr>"
  by code_simp

text \<open>
  One more answer sets the timer, whose \<open>generateQuestion\<close> closes over \<open>scoreHundred\<close>,
  and the session shows \<open>4 x 1\<close> at score 105.
\<close>

lemma part_000_times_one_in_session:
  "run Part_000 (mount Moderate)
     (twentyCorrect
      @ [ClickOption 15, TimerFires [0, 0, 3/4, 0, 0, 9/10, 0, 7/10, 3/4, 8/10, 1/4] rev])
   = Some \<lparr>screen =
        \<lparr>difficulty = Moderate, robuxScore = 105,
         currentQuestion = Some \<lparr>num1 = 4, num2 = 1, answer = 4, options = [7, 12, 5, 4]\<rparr>,
         correctStreak = 21, wrongStreak = 0, correctAnswersCount = 21, feedback = None,
         isAnswered = False, difficultyLevel = 2, showIntroMessage = False, typedAnswer = [],
         lastQuestion = Some (4, 1)\<rparr>,
      timers = []\<rparr>"
  by code_simp

text \<open>
  In a session the callback that the timer runs has read the score before the last
  answer (\<open>answer_sets_timer\<close>), so the block takes effect one question after the score
  on screen has reached 100. In this Easy session of \<open>index.tsx\<close> the 20th correct answer
  brings the score from 95 to 100; the question generated next is drawn by a callback
  that read 95, and is \<open>2 x 1\<close>.
\<close>

lemma index_tsx_score_read_by_timer:
  "run Index_tsx (mount Easy)
     (nineteenCorrect
      @ [ClickOption 15, TimerFires [1/4, 0, 3/4, 9/10, 3/4, 7/10, 1/4, 8/10, 3/4] rev])
   = Some \<lparr>screen =
        \<lparr>difficulty = Easy, robuxScore = 100,
         currentQuestion = Some \<lparr>num1 = 2, num2 = 1, answer = 2, options = [8, 4, 10, 2]\<rparr>,
         correctStreak = 20, wrongStreak = 0, correctAnswersCount = 20, feedback = None,
         isAnswered = False, difficultyLevel = 0, showIntroMessage = False, typedAnswer = [],
         lastQuestion = Some (2, 1)\<rparr>,
      timers = []\<rparr>"
  by code_simp

section \<open>The score override\<close>

text \<open>
  As a function of the score it reads, \<open>generateQuestion\<close> takes the score-override
  branch from 800 on, whatever the tier: the branch is the first of the cascade, and its
  ranges survive the block of \<open>index.tsx\<close> (no operand is 1) and the loop.
\<close>

lemma drawOperands_scoreOverride:
  "800 \<le> robuxScore c \<Longrightarrow> drawOperands c rs = scoreOverrideRule rs"
  by (simp add: drawOperands_def)

lemma generateQuestion_scoreOverride:
  assumes "generateQuestion src sortRandomly c rs = Some q"
    and "list_all unitInterval rs" and "800 \<le> robuxScore c"
  shows "(num1 q \<in> {6, 7, 8, 9} \<and> 6 \<le> num2 q \<and> num2 q \<le> 12)
       \<or> (num2 q \<in> {6, 7, 8, 9} \<and> 6 \<le> num1 q \<and> num1 q \<le> 12)"
proof -
  from assms(1) obtain n1 n2 rs' where
    p: "pickOperands src c rs = Some ((n1, n2), rs')" and q: "num1 q = n1" "num2 q = n2"
    by (auto simp: generateQuestion_def Let_def split: option.splits)
  from pickOperands_last_pass [OF p] obtain rs0
    where "set rs0 \<subseteq> set rs" and b: "loopBody src c rs0 = Some ((n1, n2), rs')" by blast
  with assms(2) have "list_all unitInterval rs0" by (auto simp: list_all_iff)
  from loopBody_scoreOverride [OF b this assms(3)] q show ?thesis by simp
qed

text \<open>
  Claim C7 (for every state with a score of at least 800, whatever the tier,
  \<open>generateQuestion\<close> draws by the score-override rule) fails in a session, in both
  source files. The question that follows an answer is generated by the call that the
  handler has scheduled,
  \<^verbatim>\<open>
    setTimeout(() => { generateQuestion(); }, 1250);
  \<close>
  and the \<open>generateQuestion\<close> of that call is the callback of the render in which the
  answer was given: the \<open>robuxScore\<close> it reads is the score before the answer (lemma
  \<open>answer_sets_timer\<close>). So the question that follows the answer which takes the score to
  800 or above is drawn by the rule of the tier.

  The session is the end-to-end scenario of the spec: Moderate tier, score 799, \<open>5 x 3\<close> on
  screen. The answer 15 is correct and the score becomes 804. The timer fires, and its
  callback, which read 799, draws from the Moderate branch:
  \<open>factors[Math.floor(0 * 4)] = 4\<close>, \<open>Math.floor(0.125 * 10) + 1 = 2\<close>, no swap. The
  question on screen at score 804 is \<open>4 x 2\<close>, where the claim has one operand in
  \<open>{6, 7, 8, 9}\<close> and the other in 6..12. (The draws of the tape are dyadic, and their
  products are the same in double arithmetic, by \<open>dyadic_products_exact\<close>.)
\<close>

theorem tier_rule_at_score_804:
  "run src score799
     [ClickOption 15, TimerFires [0, 1/8, 3/4, 7/8, 3/4, 3/4, 3/4, 5/8, 3/4] rev]
   = Some \<lparr>screen =
        \<lparr>difficulty = Moderate, robuxScore = 804,
         currentQuestion = Some \<lparr>num1 = 4, num2 = 2, answer = 8, options = [12, 16, 20, 8]\<rparr>,
         correctStreak = 160, wrongStreak = 0, correctAnswersCount = 162, feedback = None,
         isAnswered = False, difficultyLevel = 1, showIntroMessage = False, typedAnswer = [],
         lastQuestion = Some (4, 2)\<rparr>,
      timers = []\<rparr>"
  by (cases src; hypsubst; code_simp)

text \<open>
  On the same draws a \<open>generateQuestion\<close> that had read the state after the answer, with
  its score of 804, draws \<open>6 x 6\<close> from the score-override branch.
\<close>

lemma score_override_same_draws:
  "generateQuestion src rev (correctUpdates (screen score799))
     [0, 1/8, 3/4, 7/8, 3/4, 3/4, 3/4, 5/8, 3/4]
   = Some \<lparr>num1 = 6, num2 = 6, answer = 36, options = [42, 48, 54, 36]\<rparr>"
  by (cases src; hypsubst; code_simp)

text \<open>The session at score 799 is reached from the start, in both source files.\<close>

lemma score799_reached:
  "run src (mount Moderate) upTo799 = Some score799"
  by (cases src; hypsubst; code_simp)

section \<open>The fallback rule\<close>

text \<open>
  As a function of the values it reads, the last branch of the cascade is the one taken
  in the Easy tier from 30 correct answers on, below a score of 800, and it has the
  ranges of the spec: with base 4 for Easy, 7 for Moderate, 10 for Hard and
  \<open>effectiveLevel = difficultyLevel + floor(correctStreak / 3) + (2 if score \<ge> 500)\<close>,
  \<open>num1\<close> lies in \<open>1 .. base + effectiveLevel\<close> and \<open>num2\<close> in
  \<open>1 .. base + max(0, effectiveLevel - 2)\<close>, unless both were drawn as 1: then \<open>num2\<close> is
  drawn again, in 2..10.
\<close>

lemma drawOperands_fallback:
  assumes "robuxScore c < 800" and "difficulty c = Easy" and "30 \<le> correctAnswersCount c"
  shows "drawOperands c rs = fallbackRule c rs"
  using assms by (simp add: drawOperands_def)

lemma fallbackRule_range:
  fixes c :: GameScreen
  defines "base \<equiv> (if difficulty c = Easy then 4 else if difficulty c = Moderate then 7 else 10)"
  defines "effectiveLevel \<equiv>
             difficultyLevel c + correctStreak c div 3 + (if robuxScore c \<ge> 500 then 2 else 0)"
  assumes "fallbackRule c rs = Some ((n1, n2), rs')" and "list_all unitInterval rs"
    and "0 \<le> difficultyLevel c" and "0 \<le> correctStreak c"
  shows "1 \<le> n1 \<and> n1 \<le> base + effectiveLevel
       \<and> ((1 \<le> n2 \<and> n2 \<le> base + max 0 (effectiveLevel - 2)) \<or> (n1 = 1 \<and> 2 \<le> n2 \<and> n2 \<le> 10))"
proof -
  from assms(5,6) have eff: "0 \<le> effectiveLevel"
    by (simp add: effectiveLevel_def pos_imp_zdiv_nonneg_iff)
  have base: "4 \<le> base" by (simp add: base_def)
  from assms(3) obtain r1 r2 rs1 where rs: "rs = r1 # r2 # rs1"
    by (auto simp: fallbackRule_def Let_def split: list.splits)
  with assms(4) have u: "unitInterval r1" "unitInterval r2" "list_all unitInterval rs1"
    by simp_all
  from eff base have m: "0 < base + effectiveLevel" "0 < base + max 0 (effectiveLevel - 2)"
    by simp_all
  note b1 = floorRandom_bounds [OF u(1) m(1)] and b2 = floorRandom_bounds [OF u(2) m(2)]
  show ?thesis
  proof (cases "floorRandom r1 (base + effectiveLevel) + 1 = 1
              \<and> floorRandom r2 (base + max 0 (effectiveLevel - 2)) + 1 = 1")
    case True
    with assms(3) rs obtain r3 where r3: "rs1 = r3 # rs'" "n1 = 1" "n2 = floorRandom r3 9 + 2"
      by (auto simp: fallbackRule_def Let_def effectiveLevel_def base_def
               split: list.splits if_splits)
    with u(3) have "unitInterval r3" by simp
    from floorRandom_bounds [OF this, of 9] r3 m(1) show ?thesis by simp
  next
    case False
    with assms(3) rs have "n1 = floorRandom r1 (base + effectiveLevel) + 1"
      "n2 = floorRandom r2 (base + max 0 (effectiveLevel - 2)) + 1"
      by (auto simp: fallbackRule_def Let_def effectiveLevel_def base_def
               split: list.splits if_splits)
    with b1 b2 show ?thesis by simp
  qed
qed

text \<open>
  Claim C6 (the fallback rule draws \<open>num1\<close> from \<open>1 .. base + effectiveLevel\<close> and \<open>num2\<close>
  from \<open>1 .. base + max(0, effectiveLevel - 2)\<close>, for the \<open>effectiveLevel\<close> above) fails in a
  session, in both source files. The branch needs 30 correct answers, so it is only ever
  run by the timer that an answer has set, and the callback that a timer runs has read
  \<open>correctAnswersCount\<close>, \<open>correctStreak\<close>, \<open>robuxScore\<close> and \<open>difficultyLevel\<close> in the
  render in which the answer was given, before the answer (lemma \<open>answer_sets_timer\<close>).

  The session: Easy tier, 30 correct answers in a row, \<open>2 x 7\<close> on screen at score 150.
  The option 20 is clicked, a wrong answer: the score becomes 148 and \<open>correctStreak\<close>
  becomes 0, so that \<open>effectiveLevel = 0 + floor(0 / 3) + 0 = 0\<close> and both ranges of the
  claim are 1..4. The timer fires, and its callback, which read \<open>correctStreak = 30\<close>,
  computes \<open>effectiveLevel = 10\<close>, \<open>maxNum1 = 14\<close> and \<open>maxNum2 = 12\<close>, and draws
  \<open>num1 = Math.floor(0.9375 * 14) + 1 = 14\<close> and \<open>num2 = Math.floor(0.5 * 12) + 1 = 7\<close>.
  The question on screen is \<open>14 x 7\<close>, in a state whose \<open>correctStreak\<close> and
  \<open>difficultyLevel\<close> are 0. (The draws of the tape are dyadic, and their products are the
  same in double arithmetic, by \<open>dyadic_products_exact\<close>.)
\<close>

theorem fallback_after_wrong_answer:
  "run src streakThirty
     [ClickOption 20, TimerFires [15/16, 1/2, 7/8, 3/4, 3/4, 3/4, 5/8, 3/4] rev]
   = Some \<lparr>screen =
        \<lparr>difficulty = Easy, robuxScore = 148,
         currentQuestion =
           Some \<lparr>num1 = 14, num2 = 7, answer = 98, options = [112, 126, 140, 98]\<rparr>,
         correctStreak = 0, wrongStreak = 1, correctAnswersCount = 30, feedback = None,
         isAnswered = False, difficultyLevel = 0, showIntroMessage = False, typedAnswer = [],
         lastQuestion = Some (14, 7)\<rparr>,
      timers = []\<rparr>"
  by (cases src; hypsubst; code_simp)

text \<open>
  On the same draws a \<open>generateQuestion\<close> that had read the state after the answer, with
  its \<open>correctStreak\<close> of 0, draws \<open>4 x 3\<close>, both operands in 1..4.
\<close>

lemma fallback_same_draws:
  "generateQuestion src rev (wrongUpdates (Num 20) (screen streakThirty))
     [15/16, 1/2, 7/8, 3/4, 3/4, 3/4, 5/8, 3/4]
   = Some \<lparr>num1 = 4, num2 = 3, answer = 12, options = [16, 20, 24, 12]\<rparr>"
  by (cases src; hypsubst; code_simp)

text \<open>The session with a streak of 30 is reached from the start, in both source files.\<close>

lemma streakThirty_reached:
  "run src (mount Easy) thirtyCorrect = Some streakThirty"
  by (cases src; hypsubst; code_simp)

section \<open>The questions of a session\<close>

text \<open>A regular event keeps the question on screen well-formed.\<close>

lemma step_wellFormed:
  assumes "sessionInvariant s" and "step src s e = Some s'" and "regular e"
    and "\<forall>q. currentQuestion (screen s) = Some q \<longrightarrow> wellFormed q"
  shows "\<forall>q. currentQuestion (screen s') = Some q \<longrightarrow> wellFormed q"
proof (cases e)
  case (StartGame rs sortRandomly)
  show ?thesis
  proof (cases "showIntroMessage (screen s)")
    case True
    with StartGame assms(2) obtain q where
      g: "generateQuestion src sortRandomly (screen s) rs = Some q"
      and s': "currentQuestion (screen s') = Some q"
      by (auto simp: setQuestion_def split: option.splits)
    from assms(1) have "0 \<le> difficultyLevel (screen s)" "0 \<le> correctStreak (screen s)"
      by (simp_all add: sessionInvariant_def nonNegative_def)
    with generateQuestion_wellFormed [OF g] assms(3) StartGame have "wellFormed q"
      by simp
    with s' show ?thesis by simp
  next
    case False
    with StartGame assms show ?thesis by simp
  qed
next
  case (ClickOption x)
  with assms(2) step_keeps_question [of src s e s' x] assms(4) show ?thesis by simp
next
  case (TypeText t)
  with assms(2) step_keeps_question [of src s e s' _ t] assms(4) show ?thesis by simp
next
  case SubmitTyped
  with assms(2) step_keeps_question [of src s e s'] assms(4) show ?thesis by simp
next
  case (TimerFires rs sortRandomly)
  show ?thesis
  proof (cases "timers s")
    case Nil
    with TimerFires assms show ?thesis by simp
  next
    case (Cons a ts)
    obtain c clearTyped where a: "a = (c, clearTyped)" by (cases a)
    from TimerFires Cons a assms(2) obtain q where
      g: "generateQuestion src sortRandomly c rs = Some q"
      and s': "currentQuestion (screen s') = Some q"
      by (auto simp: setQuestion_def split: option.splits)
    from assms(1) Cons a have "0 \<le> difficultyLevel c" "0 \<le> correctStreak c"
      by (simp_all add: sessionInvariant_def nonNegative_def)
    with generateQuestion_wellFormed [OF g] assms(3) TimerFires have "wellFormed q"
      by simp
    with s' show ?thesis by simp
  qed
qed

text \<open>Every question that is on screen during a session is well-formed.\<close>

lemma run_wellFormed:
  assumes "run src (mount d) evs = Some s" and "list_all regular evs"
    and "currentQuestion (screen s) = Some q"
  shows "wellFormed q"
proof -
  have "\<forall>q. currentQuestion (screen s') = Some q \<longrightarrow> wellFormed q"
    if "sessionInvariant s0" "run src s0 evs = Some s'" "list_all regular evs"
      "\<forall>q. currentQuestion (screen s0) = Some q \<longrightarrow> wellFormed q" for s0 s'
    using that
  proof (induction evs arbitrary: s0)
    case Nil
    then show ?case by simp
  next
    case (Cons e evs)
    from Cons.prems(2) obtain s1 where 1: "step src s0 e = Some s1"
      and 2: "run src s1 evs = Some s'"
      by (auto split: option.splits)
    from Cons.prems(3) have r: "regular e" "list_all regular evs" by simp_all
    from Cons.IH [OF sessionInvariant_step [OF Cons.prems(1) 1] 2 r(2)
        step_wellFormed [OF Cons.prems(1) 1 r(1) Cons.prems(4)]]
    show ?case .
  qed
  from this [OF sessionInvariant_mount assms(1,2)] assms(3) show ?thesis
    by (simp add: mount_def initialState_def difficultyEffect_def)
qed

end
